theory Spec2Isabelle
  imports Main
begin

chapter \<open>GovWatcher archive: capture-and-diff pipeline\<close>

text \<open>
  A shallow embedding of the Python sources under \<^verbatim>\<open>govwatcher-archive/src\<close>:
  the Redis work queue (\<^verbatim>\<open>utils/redis_client.py\<close>), the relational catalog as the
  models use it (\<^verbatim>\<open>models/archive.py\<close>, \<^verbatim>\<open>models/snapshot.py\<close>,
  \<^verbatim>\<open>utils/db.py\<close>), the capture flow (\<^verbatim>\<open>crawlers/webpage_crawler.py\<close>,
  \<^verbatim>\<open>crawlers/crawler_manager.py\<close>) and the diff engine
  (\<^verbatim>\<open>processors/diff_processor.py\<close>, \<^verbatim>\<open>storage/storage_manager.py\<close>).

  Python integers are \<^typ>\<open>int\<close>, \<^verbatim>\<open>None\<close> is \<^const>\<open>None\<close>, timestamps are
  integer clock readings, mutation is explicit state passing.
\<close>

section \<open>Definitions\<close>

subsection \<open>Rendering integers, as \<^verbatim>\<open>str(n)\<close> and f-strings do\<close>

definition digit_char :: "nat \<Rightarrow> char" where
  "digit_char n = ''0123456789'' ! (n mod 10)"

function str_nat :: "nat \<Rightarrow> string" where
  "str_nat n = (if n < 10 then [digit_char n] else str_nat (n div 10) @ [digit_char n])"
  by pat_completeness auto
termination
  by (relation "measure id") auto

declare str_nat.simps [simp del]

definition str_int :: "int \<Rightarrow> string" where
  "str_int i = (if i < 0 then CHR ''-'' # str_nat (nat (- i)) else str_nat (nat i))"

subsection \<open>Configuration (\<^verbatim>\<open>config.py\<close>)\<close>

record config =
  STORAGE_PATH :: string
  MAX_CONCURRENT_CRAWLS :: int
  HIGH_PRIORITY_THRESHOLD :: int
  NORMAL_PRIORITY_THRESHOLD :: int
  HIGH_PRIORITY_INTERVAL :: int
  NORMAL_PRIORITY_INTERVAL :: int
  LOW_PRIORITY_INTERVAL :: int
  DIFF_SIZE_THRESHOLD :: int
  ENABLE_SCREENSHOTS :: bool
  ENABLE_PDF :: bool
  ENABLE_VISUAL_DIFF :: bool

text \<open>The defaults of \<^verbatim>\<open>Config.__init__\<close> when no environment variable is set.\<close>

definition default_config :: config where
  "default_config =
     \<lparr> STORAGE_PATH = ''/data/archives'',
       MAX_CONCURRENT_CRAWLS = 3,
       HIGH_PRIORITY_THRESHOLD = 1,
       NORMAL_PRIORITY_THRESHOLD = 3,
       HIGH_PRIORITY_INTERVAL = 7 * 24 * 3600,
       NORMAL_PRIORITY_INTERVAL = 14 * 24 * 3600,
       LOW_PRIORITY_INTERVAL = 30 * 24 * 3600,
       DIFF_SIZE_THRESHOLD = 10,
       ENABLE_SCREENSHOTS = True,
       ENABLE_PDF = True,
       ENABLE_VISUAL_DIFF = True \<rparr>"

subsection \<open>Work queue (\<^verbatim>\<open>utils/redis_client.py\<close>)\<close>

text \<open>
  A JSON scalar of a job payload. The payload dictionary is an association list; the
  hash field \<^verbatim>\<open>data\<close> holds it (its \<^verbatim>\<open>json.dumps\<close> text is a function of it).
\<close>

datatype jval = JInt int | JStr string | JNull

type_synonym job_data = "(string \<times> jval) list"

text \<open>
  The Redis hash \<^verbatim>\<open>jobs:<job_id>\<close>, as a typed view of the fields this client writes.
  Redis stores every value as a string and the client reads numbers back through
  \<^verbatim>\<open>int(...)\<close>; a numeric field is kept as the integer it denotes. A field that was
  never written is \<^const>\<open>None\<close>, which is what \<^verbatim>\<open>hget\<close> returns for it.
\<close>

record job_hash =
  j_status :: "string option"
  j_priority :: "int option"
  j_created_at :: "int option"
  j_data :: "job_data option"
  j_retries :: "int option"
  j_last_error :: "string option"
  j_error :: "string option"
  j_failed_at :: "int option"
  j_started_at :: "int option"
  j_completed_at :: "int option"
  j_result :: "job_data option"

definition empty_hash :: job_hash where
  "empty_hash =
     \<lparr> j_status = None, j_priority = None, j_created_at = None, j_data = None,
       j_retries = None, j_last_error = None, j_error = None, j_failed_at = None,
       j_started_at = None, j_completed_at = None, j_result = None \<rparr>"

text \<open>
  The Redis keyspace the client touches, by kind of value: hashes (\<^verbatim>\<open>jobs:...\<close>),
  sorted sets (\<^verbatim>\<open>queue:...\<close>, member to score), sets (\<^verbatim>\<open>processing:...\<close>) and
  integer counters (\<^verbatim>\<open>stats:...\<close>). Each is addressed by its full key.
\<close>

record redis =
  hashes :: "string \<Rightarrow> job_hash option"
  zsets :: "string \<Rightarrow> (string \<Rightarrow> int option)"
  sets :: "string \<Rightarrow> string set"
  counters :: "string \<Rightarrow> int option"

definition empty_redis :: redis where
  "empty_redis =
     \<lparr> hashes = (\<lambda>_. None), zsets = (\<lambda>_. (\<lambda>_. None)), sets = (\<lambda>_. {}),
       counters = (\<lambda>_. None) \<rparr>"

text \<open>The key names the client builds with f-strings.\<close>

definition job_key :: "string \<Rightarrow> string" where
  "job_key job_id = ''jobs:'' @ job_id"

definition queue_key :: "string \<Rightarrow> string" where
  "queue_key queue_name = ''queue:'' @ queue_name"

definition processing_key :: "string \<Rightarrow> string" where
  "processing_key queue_name = ''processing:'' @ queue_name"

definition stats_key :: "string \<Rightarrow> string \<Rightarrow> string" where
  "stats_key queue_name counter = ''stats:'' @ queue_name @ '':'' @ counter"

definition hget :: "redis \<Rightarrow> string \<Rightarrow> (job_hash \<Rightarrow> 'a option) \<Rightarrow> 'a option" where
  "hget r key field = (case hashes r key of None \<Rightarrow> None | Some h \<Rightarrow> field h)"

text \<open>\<^verbatim>\<open>hset\<close> creates the hash when the key does not exist.\<close>

definition hset :: "redis \<Rightarrow> string \<Rightarrow> (job_hash \<Rightarrow> job_hash) \<Rightarrow> redis" where
  "hset r key upd =
     r\<lparr>hashes := (hashes r)(key := Some (upd (case hashes r key of None \<Rightarrow> empty_hash | Some h \<Rightarrow> h)))\<rparr>"

definition zadd :: "redis \<Rightarrow> string \<Rightarrow> string \<Rightarrow> int \<Rightarrow> redis" where
  "zadd r key member score = r\<lparr>zsets := (zsets r)(key := (zsets r key)(member := Some score))\<rparr>"

definition zscore :: "redis \<Rightarrow> string \<Rightarrow> string \<Rightarrow> int option" where
  "zscore r key member = zsets r key member"

definition srem :: "redis \<Rightarrow> string \<Rightarrow> string \<Rightarrow> redis" where
  "srem r key member = r\<lparr>sets := (sets r)(key := sets r key - {member})\<rparr>"

text \<open>\<^verbatim>\<open>incr\<close> starts a missing counter at 0.\<close>

definition incr :: "redis \<Rightarrow> string \<Rightarrow> redis" where
  "incr r key =
     r\<lparr>counters := (counters r)(key := Some ((case counters r key of None \<Rightarrow> 0 | Some c \<Rightarrow> c) + 1))\<rparr>"

text \<open>\<^verbatim>\<open>int(x or d)\<close> on a numeric field: the default when the field is missing.\<close>

definition int_or :: "int option \<Rightarrow> int \<Rightarrow> int" where
  "int_or x d = (case x of None \<Rightarrow> d | Some n \<Rightarrow> n)"

text \<open>\<^verbatim>\<open>job_data.get('id', '')\<close> inside the f-string of the job id.\<close>

definition job_data_id :: "job_data \<Rightarrow> string" where
  "job_data_id jd =
     (case map_of jd ''id'' of
        None \<Rightarrow> ''''
      | Some (JInt n) \<Rightarrow> str_int n
      | Some (JStr s) \<Rightarrow> s
      | Some JNull \<Rightarrow> ''None'')"

text \<open>
  \<^verbatim>\<open>enqueue_job(queue_name, job_data, priority)\<close>. The two readings of
  \<^verbatim>\<open>time.time()\<close> are the arguments \<open>t_id\<close> and \<open>t_created\<close>.
\<close>

definition enqueue_job ::
  "redis \<Rightarrow> string \<Rightarrow> job_data \<Rightarrow> int \<Rightarrow> int \<Rightarrow> int \<Rightarrow> string \<times> redis" where
  "enqueue_job r queue_name job_data priority t_id t_created =
     (let job_id = ''job:'' @ str_int t_id @ '':'' @ job_data_id job_data;
          jk = job_key job_id;
          r1 = hset r jk
                 (\<lambda>h. h\<lparr>j_status := Some ''pending'', j_priority := Some priority,
                        j_created_at := Some t_created, j_data := Some job_data\<rparr>);
          r2 = zadd r1 (queue_key queue_name) job_id priority
      in (job_id, r2))"

text \<open>
  \<^verbatim>\<open>complete_job(queue_name, job_id, result=None)\<close>; \<^verbatim>\<open>if result:\<close> holds for a
  non-empty dictionary.
\<close>

definition complete_job :: "redis \<Rightarrow> string \<Rightarrow> string \<Rightarrow> job_data option \<Rightarrow> int \<Rightarrow> redis" where
  "complete_job r queue_name job_id result now =
     (let jk = job_key job_id;
          r1 = hset r jk (\<lambda>h. h\<lparr>j_status := Some ''completed''\<rparr>);
          r2 = hset r1 jk (\<lambda>h. h\<lparr>j_completed_at := Some now\<rparr>);
          r3 = (case result of
                  None \<Rightarrow> r2
                | Some res \<Rightarrow> if res \<noteq> [] then hset r2 jk (\<lambda>h. h\<lparr>j_result := Some res\<rparr>) else r2);
          r4 = srem r3 (processing_key queue_name) job_id
      in incr r4 (stats_key queue_name ''completed''))"

text \<open>
  \<^verbatim>\<open>fail_job(queue_name, job_id, error=None, retry=False, max_retries=3)\<close>.
  \<^verbatim>\<open>str(error) if error else 'Unknown error'\<close> and \<^verbatim>\<open>if error:\<close> test the truth value
  of the error text: \<^verbatim>\<open>None\<close> and the empty string are false.
\<close>

definition fail_job ::
  "redis \<Rightarrow> string \<Rightarrow> string \<Rightarrow> string option \<Rightarrow> bool \<Rightarrow> int \<Rightarrow> int \<Rightarrow> redis" where
  "fail_job r queue_name job_id error retry max_retries now =
     (let jk = job_key job_id;
          retries = int_or (hget r jk j_retries) 0;
          r' =
            (if retry \<and> retries < max_retries then
               (let r1 = hset r jk (\<lambda>h. h\<lparr>j_retries := Some (int_or (j_retries h) 0 + 1)\<rparr>);
                    r2 = hset r1 jk
                           (\<lambda>h. h\<lparr>j_last_error :=
                                   Some (case error of
                                           None \<Rightarrow> ''Unknown error''
                                         | Some e \<Rightarrow> if e \<noteq> [] then e else ''Unknown error'')\<rparr>);
                    priority = int_or (hget r2 jk j_priority) 5;
                    r3 = zadd r2 (queue_key queue_name) job_id (priority + 1)
                in hset r3 jk (\<lambda>h. h\<lparr>j_status := Some ''pending''\<rparr>))
             else
               (let r1 = hset r jk (\<lambda>h. h\<lparr>j_status := Some ''failed''\<rparr>);
                    r2 = hset r1 jk (\<lambda>h. h\<lparr>j_failed_at := Some now\<rparr>);
                    r3 = (case error of
                            None \<Rightarrow> r2
                          | Some e \<Rightarrow> if e \<noteq> [] then hset r2 jk (\<lambda>h. h\<lparr>j_error := Some e\<rparr>) else r2)
                in incr r3 (stats_key queue_name ''failed'')))
      in srem r' (processing_key queue_name) job_id)"

text \<open>The queue operations a worker applies to a job after it was enqueued.\<close>

datatype queue_op =
    Fail string string "string option" bool int int
  | Complete string string "job_data option" int

fun apply_queue_op :: "redis \<Rightarrow> queue_op \<Rightarrow> redis" where
  "apply_queue_op r (Fail q j e retry m now) = fail_job r q j e retry m now"
| "apply_queue_op r (Complete q j res now) = complete_job r q j res now"

definition apply_queue_ops :: "redis \<Rightarrow> queue_op list \<Rightarrow> redis" where
  "apply_queue_ops r ops = foldl apply_queue_op r ops"

subsection \<open>Catalog rows and the generic helpers of \<^verbatim>\<open>utils/db.py\<close>\<close>

text \<open>
  An \<^verbatim>\<open>Archive\<close> object and a row of the table \<^verbatim>\<open>archives\<close> have the same fields
  (\<^verbatim>\<open>from_row\<close> is \<^verbatim>\<open>cls(**dict(row))\<close>); an object that was never saved has no id.
\<close>

record archive =
  a_id :: "int option"
  a_domain :: string
  a_domain_type :: "string option"
  a_agency :: "string option"
  a_organization_name :: "string option"
  a_city :: "string option"
  a_state :: "string option"
  a_security_contact_email :: "string option"
  a_priority :: int
  a_created_at :: int
  last_checked_at :: "int option"
  last_changed_at :: "int option"
  a_enabled :: bool

datatype mval = MStr string | MNum int | MBool bool

type_synonym metadata = "(string \<times> mval) list"

record snapshot =
  s_id :: "int option"
  s_archive_id :: "int option"
  capture_timestamp :: int
  warc_path :: "string option"
  screenshot_path :: "string option"
  html_path :: "string option"
  text_path :: "string option"
  pdf_path :: "string option"
  content_hash :: "string option"
  s_status :: "int option"
  size_bytes :: "int option"
  error_message :: "string option"
  s_metadata :: metadata

text \<open>A row of \<^verbatim>\<open>archive_queue\<close>, with the columns the inserts of the sources set.\<close>

record queue_entry =
  q_id :: int
  q_archive_id :: "int option"
  q_operation :: string
  q_status :: string
  q_priority :: int
  q_scheduled_for :: int

record stats =
  additions :: int
  deletions :: int
  st_changes :: int
  total :: int

record diff_row =
  d_id :: int
  d_archive_id :: int
  d_old_snapshot_id :: int
  d_new_snapshot_id :: int
  d_diff_timestamp :: int
  d_diff_path :: string
  d_stats :: stats
  d_significance :: int
  d_visual_diff_path :: "string option"

text \<open>
  The database: each table in insertion order, and the serial sequence behind each
  \<^verbatim>\<open>id\<close> column (\<^verbatim>\<open>INSERT ... RETURNING id\<close> yields its next value).
\<close>

record db =
  archives :: "archive list"
  snapshots :: "snapshot list"
  archive_queue :: "queue_entry list"
  diffs :: "diff_row list"
  archives_seq :: int
  snapshots_seq :: int
  archive_queue_seq :: int
  diffs_seq :: int

definition empty_db :: db where
  "empty_db =
     \<lparr> archives = [], snapshots = [], archive_queue = [], diffs = [],
       archives_seq = 1, snapshots_seq = 1, archive_queue_seq = 1, diffs_seq = 1 \<rparr>"

text \<open>
  \<^verbatim>\<open>db.update('archives', data, 'id = %(id)s', {'id': id})\<close>: every row whose id equals
  the parameter gets the columns of \<open>data\<close>. A \<^verbatim>\<open>None\<close> parameter is SQL \<^verbatim>\<open>NULL\<close>,
  which equals no id.
\<close>

definition update_archives :: "db \<Rightarrow> int option \<Rightarrow> (archive \<Rightarrow> archive) \<Rightarrow> db" where
  "update_archives d i upd =
     d\<lparr>archives := map (\<lambda>row. if i \<noteq> None \<and> a_id row = i then upd row else row) (archives d)\<rparr>"

definition update_snapshots :: "db \<Rightarrow> int option \<Rightarrow> (snapshot \<Rightarrow> snapshot) \<Rightarrow> db" where
  "update_snapshots d i upd =
     d\<lparr>snapshots := map (\<lambda>row. if i \<noteq> None \<and> s_id row = i then upd row else row) (snapshots d)\<rparr>"


definition insert_snapshot :: "db \<Rightarrow> snapshot \<Rightarrow> int \<times> db" where
  "insert_snapshot d row =
     (let i = snapshots_seq d
      in (i, d\<lparr>snapshots := snapshots d @ [row\<lparr>s_id := Some i\<rparr>], snapshots_seq := i + 1\<rparr>))"

definition insert_queue_entry ::
  "db \<Rightarrow> int option \<Rightarrow> string \<Rightarrow> string \<Rightarrow> int \<Rightarrow> int \<Rightarrow> int \<times> db" where
  "insert_queue_entry d archive_id operation status priority scheduled_for =
     (let i = archive_queue_seq d
      in (i, d\<lparr>archive_queue := archive_queue d @
                  [\<lparr> q_id = i, q_archive_id = archive_id, q_operation = operation,
                     q_status = status, q_priority = priority,
                     q_scheduled_for = scheduled_for \<rparr>],
                archive_queue_seq := i + 1\<rparr>))"

text \<open>The truth value of an id in \<^verbatim>\<open>if self.id:\<close>: \<^verbatim>\<open>None\<close> and 0 are false.\<close>

definition truthy_id :: "int option \<Rightarrow> bool" where
  "truthy_id i = (case i of None \<Rightarrow> False | Some n \<Rightarrow> n \<noteq> 0)"

subsection \<open>\<^verbatim>\<open>models/archive.py\<close>\<close>


text \<open>\<^verbatim>\<open>update_check_time\<close>; \<open>now\<close> is the reading of \<^verbatim>\<open>datetime.now()\<close>.\<close>

definition update_check_time :: "int \<Rightarrow> archive \<Rightarrow> db \<Rightarrow> archive \<times> db" where
  "update_check_time now self d =
     (let self' = self\<lparr>last_checked_at := Some now\<rparr>
      in (self', update_archives d (a_id self')
                   (\<lambda>row. row\<lparr>last_checked_at := last_checked_at self'\<rparr>)))"

text \<open>
  \<^verbatim>\<open>update_change_time\<close>: sets \<^verbatim>\<open>last_changed_at\<close> to the clock reading and writes it
  to the row together with the \<^verbatim>\<open>last_checked_at\<close> the object holds.
\<close>

definition update_change_time :: "int \<Rightarrow> archive \<Rightarrow> db \<Rightarrow> archive \<times> db" where
  "update_change_time now self d =
     (let self' = self\<lparr>last_changed_at := Some now\<rparr>
      in (self', update_archives d (a_id self')
                   (\<lambda>row. row\<lparr>last_changed_at := last_changed_at self',
                              last_checked_at := last_checked_at self'\<rparr>)))"


text \<open>
  \<^verbatim>\<open>ORDER BY priority ASC, last_checked_at ASC NULLS FIRST\<close> as a comparison of rows,
  and the sort as a stable insertion sort (SQL leaves the order of ties open; the
  table order is one admissible choice).
\<close>

definition archive_order :: "archive \<Rightarrow> archive \<Rightarrow> bool" where
  "archive_order a b =
     (a_priority a < a_priority b \<or>
      (a_priority a = a_priority b \<and>
       (case last_checked_at a of
          None \<Rightarrow> True
        | Some x \<Rightarrow> (case last_checked_at b of None \<Rightarrow> False | Some y \<Rightarrow> x \<le> y))))"

fun insert_by :: "('a \<Rightarrow> 'a \<Rightarrow> bool) \<Rightarrow> 'a \<Rightarrow> 'a list \<Rightarrow> 'a list" where
  "insert_by le x [] = [x]"
| "insert_by le x (y # ys) = (if le x y then x # y # ys else y # insert_by le x ys)"

definition order_by :: "('a \<Rightarrow> 'a \<Rightarrow> bool) \<Rightarrow> 'a list \<Rightarrow> 'a list" where
  "order_by le xs = foldr (insert_by le) xs []"

text \<open>
  The rows of \<^verbatim>\<open>archives a LEFT JOIN archive_queue q ON a.id = q.archive_id AND
  q.status IN ('pending', 'in_progress')\<close>: an archive with no matching queue row
  appears once, with \<^verbatim>\<open>NULL\<close> for every column of \<open>q\<close>.
\<close>

definition join_condition :: "archive \<Rightarrow> queue_entry \<Rightarrow> bool" where
  "join_condition a q =
     (a_id a \<noteq> None \<and> a_id a = q_archive_id q \<and>
      (q_status q = ''pending'' \<or> q_status q = ''in_progress''))"

definition left_join_queue :: "db \<Rightarrow> (archive \<times> queue_entry option) list" where
  "left_join_queue d =
     concat (map (\<lambda>a.
        (let ms = filter (join_condition a) (archive_queue d)
         in if ms = [] then [(a, None)] else map (\<lambda>q. (a, Some q)) ms))
       (archives d))"

text \<open>
  \<^verbatim>\<open>Archive.get_pending(db, max_records)\<close>. \<^verbatim>\<open>q.id IS NULL\<close> holds exactly for the
  rows the join filled with \<^verbatim>\<open>NULL\<close>. PostgreSQL rejects a negative \<^verbatim>\<open>LIMIT\<close>; the
  exception is the result \<^const>\<open>None\<close>.
\<close>

definition get_pending :: "db \<Rightarrow> int \<Rightarrow> archive list option" where
  "get_pending d max_records =
     (if max_records < 0 then None
      else Some (take (nat max_records)
                   (order_by archive_order
                      (map fst (filter (\<lambda>(a, q). a_enabled a \<and> q = None) (left_join_queue d))))))"

text \<open>
  The scheduling rule in the words of the specification (section 4.2), for comparison
  with the query: the interval of a site follows its priority tier, and a site is due
  when it was never checked or its last check is at least one interval old.
\<close>

definition spec_interval :: "config \<Rightarrow> archive \<Rightarrow> int" where
  "spec_interval cfg a =
     (if a_priority a \<le> HIGH_PRIORITY_THRESHOLD cfg then HIGH_PRIORITY_INTERVAL cfg
      else if a_priority a \<le> NORMAL_PRIORITY_THRESHOLD cfg then NORMAL_PRIORITY_INTERVAL cfg
      else LOW_PRIORITY_INTERVAL cfg)"

definition spec_next_check_passed :: "config \<Rightarrow> int \<Rightarrow> archive \<Rightarrow> bool" where
  "spec_next_check_passed cfg now a =
     (case last_checked_at a of None \<Rightarrow> True | Some t \<Rightarrow> t + spec_interval cfg a \<le> now)"

text \<open>An archive has an outstanding queue entry: one that is pending or in progress.\<close>

definition outstanding :: "db \<Rightarrow> archive \<Rightarrow> bool" where
  "outstanding d a = (filter (join_condition a) (archive_queue d) \<noteq> [])"

subsection \<open>\<^verbatim>\<open>models/snapshot.py\<close>\<close>

definition snapshot_save :: "snapshot \<Rightarrow> db \<Rightarrow> int option \<times> snapshot \<times> db" where
  "snapshot_save self d =
     (if truthy_id (s_id self) then
        (s_id self, self, update_snapshots d (s_id self) (\<lambda>row. self\<lparr>s_id := s_id row\<rparr>))
      else
        (let (i, d') = insert_snapshot d self
         in (Some i, self\<lparr>s_id := Some i\<rparr>, d')))"

text \<open>
  \<^verbatim>\<open>SELECT * FROM snapshots WHERE archive_id = %s ORDER BY capture_timestamp DESC
  LIMIT 1\<close>: a row of the archive with the greatest capture timestamp (the earliest
  inserted one among equals; SQL leaves that choice open).
\<close>

fun latest_of :: "snapshot list \<Rightarrow> snapshot option" where
  "latest_of [] = None"
| "latest_of (s # ss) =
     (case latest_of ss of
        None \<Rightarrow> Some s
      | Some m \<Rightarrow> if capture_timestamp s < capture_timestamp m then Some m else Some s)"

definition get_latest_for_archive :: "db \<Rightarrow> int option \<Rightarrow> snapshot option" where
  "get_latest_for_archive d archive_id =
     (case archive_id of
        None \<Rightarrow> None
      | Some i \<Rightarrow> latest_of (filter (\<lambda>s. s_archive_id s = Some i) (snapshots d)))"

definition get_by_id :: "db \<Rightarrow> int \<Rightarrow> snapshot option" where
  "get_by_id d snapshot_id = find (\<lambda>s. s_id s = Some snapshot_id) (snapshots d)"

subsection \<open>Capture worker (\<^verbatim>\<open>crawlers/webpage_crawler.py\<close>)\<close>

record crawl_result =
  cr_success :: bool
  cr_warc_path :: "string option"
  cr_screenshot_path :: "string option"
  cr_html_path :: "string option"
  cr_text_path :: "string option"
  cr_pdf_path :: "string option"
  cr_content_hash :: "string option"
  cr_status_code :: "int option"
  cr_size_bytes :: "int option"
  cr_error :: "string option"
  cr_metadata :: metadata

text \<open>
  What \<^verbatim>\<open>session.get(url, timeout=...)\<close> does: it returns a response (status code,
  body text, final URL) or raises.
\<close>

datatype http_outcome =
    Response int string string
  | RequestException string
  | OtherException string

text \<open>
  The collaborators of one crawl that are not code of this repository: the HTTP
  fetch, SHA-256, the temporary directory, whether writing the temporary files
  raised, and whether the browser and the WARC writer produced their file.
\<close>

record crawl_env =
  fetch :: "string \<Rightarrow> http_outcome"
  sha256_hexdigest :: "string \<Rightarrow> string"
  temp_dir :: string
  temp_write_error :: "string option"
  screenshot_taken :: bool
  pdf_generated :: bool
  warc_written :: bool

definition path_join :: "string \<Rightarrow> string \<Rightarrow> string" where
  "path_join a b =
     (if b \<noteq> [] \<and> hd b = CHR ''/'' then b
      else if a = [] \<or> last a = CHR ''/'' then a @ b
      else a @ ''/'' @ b)"

text \<open>\<^verbatim>\<open>WebpageCrawler.crawl(domain)\<close>; \<open>t\<close> is the reading of \<^verbatim>\<open>time.time()\<close>.\<close>

definition crawl :: "config \<Rightarrow> crawl_env \<Rightarrow> string \<Rightarrow> int \<Rightarrow> crawl_result" where
  "crawl cfg env domain t =
     (let url = ''https://'' @ domain;
          result = \<lparr> cr_success = False, cr_warc_path = None, cr_screenshot_path = None,
                     cr_html_path = None, cr_text_path = None, cr_pdf_path = None,
                     cr_content_hash = None, cr_status_code = None, cr_size_bytes = None,
                     cr_error = None,
                     cr_metadata = [(''url'', MStr url), (''timestamp'', MNum t),
                                    (''domain'', MStr domain)] \<rparr>
      in case fetch env url of
           RequestException e \<Rightarrow> result\<lparr>cr_error := Some (''Request error: '' @ e)\<rparr>
         | OtherException e \<Rightarrow> result\<lparr>cr_error := Some (''Unexpected error: '' @ e)\<rparr>
         | Response status_code html_content final_url \<Rightarrow>
             (let result1 = result\<lparr> cr_status_code := Some status_code,
                                    cr_metadata := cr_metadata result @
                                                     [(''final_url'', MStr final_url)] \<rparr>
              in if status_code \<noteq> 200 then
                   result1\<lparr>cr_error := Some (''HTTP status code: '' @ str_int status_code)\<rparr>
                 else
                   (case temp_write_error env of
                      Some e \<Rightarrow> result1\<lparr>cr_error := Some (''Unexpected error: '' @ e)\<rparr>
                    | None \<Rightarrow>
                        (let html_file = path_join (temp_dir env) ''content.html'';
                             text_file = path_join (temp_dir env) ''content.txt'';
                             screenshot_file =
                               (if ENABLE_SCREENSHOTS cfg \<and> screenshot_taken env
                                then Some (path_join (temp_dir env) ''screenshot.png'') else None);
                             md1 = (if ENABLE_SCREENSHOTS cfg
                                    then cr_metadata result1 @
                                           [(''screenshot_taken'', MBool (screenshot_file \<noteq> None))]
                                    else cr_metadata result1);
                             pdf_file =
                               (if ENABLE_PDF cfg \<and> pdf_generated env
                                then Some (path_join (temp_dir env) ''content.pdf'') else None);
                             md2 = (if ENABLE_PDF cfg
                                    then md1 @ [(''pdf_generated'', MBool (pdf_file \<noteq> None))]
                                    else md1);
                             warc_file =
                               (if warc_written env
                                then Some (path_join (temp_dir env) ''original.warc'') else None)
                         in result1\<lparr> cr_metadata := md2,
                                     cr_html_path := Some html_file,
                                     cr_text_path := Some text_file,
                                     cr_screenshot_path := screenshot_file,
                                     cr_pdf_path := pdf_file,
                                     cr_warc_path := warc_file,
                                     cr_content_hash := Some (sha256_hexdigest env html_content),
                                     cr_size_bytes := Some (int (length html_content)),
                                     cr_success := True \<rparr>))))"

subsection \<open>Crawler manager (\<^verbatim>\<open>crawlers/crawler_manager.py\<close>)\<close>

text \<open>
  The state the manager works on. The clock is the sequence of readings that
  successive calls of \<^verbatim>\<open>datetime.now()\<close> and \<^verbatim>\<open>time.time()\<close> return; \<open>reads\<close>
  counts the calls made so far.
\<close>

record world =
  w_db :: db
  w_redis :: redis
  active_crawls :: "int option set"
  clock :: "nat \<Rightarrow> int"
  reads :: nat

definition datetime_now :: "world \<Rightarrow> int \<times> world" where
  "datetime_now w = (clock w (reads w), w\<lparr>reads := Suc (reads w)\<rparr>)"

definition jval_of_id :: "int option \<Rightarrow> jval" where
  "jval_of_id i = (case i of None \<Rightarrow> JNull | Some n \<Rightarrow> JInt n)"

text \<open>
  \<^verbatim>\<open>_process_changes(archive, new_snapshot)\<close>. A snapshot object is always true, so
  \<^verbatim>\<open>not previous_snapshot\<close> holds exactly when the query found no row.
\<close>

definition process_changes :: "world \<Rightarrow> archive \<Rightarrow> snapshot \<Rightarrow> archive \<times> world" where
  "process_changes w archive new_snapshot =
     (case get_latest_for_archive (w_db w) (a_id archive) of
        None \<Rightarrow> (archive, w)
      | Some previous_snapshot \<Rightarrow>
          if s_id previous_snapshot = s_id new_snapshot then (archive, w)
          else if content_hash previous_snapshot = content_hash new_snapshot then (archive, w)
          else
            (let (t1, w1) = datetime_now w;
                 (archive', d1) = update_change_time t1 archive (w_db w1);
                 job_data = [(''archive_id'', jval_of_id (a_id archive')),
                             (''old_snapshot_id'', jval_of_id (s_id previous_snapshot)),
                             (''new_snapshot_id'', jval_of_id (s_id new_snapshot))];
                 (t2, w2) = datetime_now (w1\<lparr>w_db := d1\<rparr>);
                 (t3, w3) = datetime_now w2;
                 (job_id, r1) = enqueue_job (w_redis w3) ''archive:diff'' job_data 3 t2 t3;
                 (t4, w4) = datetime_now (w3\<lparr>w_redis := r1\<rparr>);
                 (qid, d2) = insert_queue_entry (w_db w4) (a_id archive') ''diff'' ''pending'' 3 t4
             in (archive', w4\<lparr>w_db := d2\<rparr>)))"

text \<open>
  \<^verbatim>\<open>crawl_archive(archive)\<close>: the returned flag, the archive object as the call leaves
  it, and the state. The \<^verbatim>\<open>finally\<close> clause removes the id from the active set on
  every path that added it.
\<close>

definition crawl_archive ::
  "config \<Rightarrow> crawl_env \<Rightarrow> world \<Rightarrow> archive \<Rightarrow> bool \<times> archive \<times> world" where
  "crawl_archive cfg env w archive =
     (if a_id archive \<in> active_crawls w then (False, archive, w)
      else
        (let w0 = w\<lparr>active_crawls := insert (a_id archive) (active_crawls w)\<rparr>;
             (t0, w1) = datetime_now w0;
             result = crawl cfg env (a_domain archive) t0;
             (ok, archive', w') =
               (if cr_success result then
                  (let (t1, w2) = datetime_now w1;
                       (archive1, d1) = update_check_time t1 archive (w_db w2);
                       (t2, w3) = datetime_now (w2\<lparr>w_db := d1\<rparr>);
                       snapshot = \<lparr> s_id = None, s_archive_id = a_id archive1,
                                    capture_timestamp = t2,
                                    warc_path = cr_warc_path result,
                                    screenshot_path = cr_screenshot_path result,
                                    html_path = cr_html_path result,
                                    text_path = cr_text_path result,
                                    pdf_path = cr_pdf_path result,
                                    content_hash = cr_content_hash result,
                                    s_status = cr_status_code result,
                                    size_bytes = cr_size_bytes result,
                                    error_message = None,
                                    s_metadata = cr_metadata result \<rparr>;
                       (snapshot_id, snapshot1, d2) = snapshot_save snapshot (w_db w3);
                       (archive2, w4) = process_changes (w3\<lparr>w_db := d2\<rparr>) archive1 snapshot1
                   in (True, archive2, w4))
                else (False, archive, w1))
         in (ok, archive', w'\<lparr>active_crawls := active_crawls w' - {a_id archive}\<rparr>)))"

subsection \<open>Textual diff (\<^verbatim>\<open>DiffProcessor._generate_text_diff\<close>)\<close>

text \<open>One entry of \<^verbatim>\<open>changes\<close> and one hunk of the diff document, as the dictionaries built.\<close>

record change =
  c_type :: string
  c_content :: string
  oldLine :: "int option"
  newLine :: "int option"

record hunk =
  h_content :: string
  oldStart :: int
  oldLines :: int
  newStart :: int
  newLines :: int
  changes :: "change list"

text \<open>The document \<^verbatim>\<open>{'hunks': hunks}\<close> is the list of its hunks.\<close>

type_synonym diff_data = "hunk list"

text \<open>An opcode of \<^verbatim>\<open>difflib.SequenceMatcher\<close>: \<^verbatim>\<open>(tag, i1, i2, j1, j2)\<close>.\<close>

type_synonym opcode = "string \<times> int \<times> int \<times> int \<times> int"

text \<open>
  \<^verbatim>\<open>xs[i]\<close>: a negative index counts from the end, an index out of range raises
  \<^verbatim>\<open>IndexError\<close> (the result \<^const>\<open>None\<close>).
\<close>

definition py_index :: "'a list \<Rightarrow> int \<Rightarrow> 'a option" where
  "py_index xs i =
     (let n = int (length xs); k = (if i < 0 then n + i else i)
      in if 0 \<le> k \<and> k < n then Some (xs ! nat k) else None)"

text \<open>\<^verbatim>\<open>range(a, b)\<close>.\<close>

definition py_range :: "int \<Rightarrow> int \<Rightarrow> int list" where
  "py_range a b = [a..b - 1]"

text \<open>
  A loop \<^verbatim>\<open>for i in range(...): hunk_changes.append(entry(i))\<close>: the entries in order,
  or the exception of the first entry that raises.
\<close>

fun collect :: "(int \<Rightarrow> change option) \<Rightarrow> int list \<Rightarrow> change list option" where
  "collect f [] = Some []"
| "collect f (i # rest) =
     (case f i of
        None \<Rightarrow> None
      | Some c \<Rightarrow> (case collect f rest of None \<Rightarrow> None | Some cs \<Rightarrow> Some (c # cs)))"

definition context_entry :: "string \<Rightarrow> int \<Rightarrow> int \<Rightarrow> change" where
  "context_entry line old_no new_no =
     \<lparr> c_type = ''context'', c_content = line, oldLine = Some old_no, newLine = Some new_no \<rparr>"

definition delete_entry :: "string \<Rightarrow> int \<Rightarrow> change" where
  "delete_entry line old_no =
     \<lparr> c_type = ''delete'', c_content = ''-'' @ line, oldLine = Some old_no, newLine = None \<rparr>"

definition insert_entry :: "string \<Rightarrow> int \<Rightarrow> change" where
  "insert_entry line new_no =
     \<lparr> c_type = ''insert'', c_content = ''+'' @ line, oldLine = None, newLine = Some new_no \<rparr>"

definition make_hunk :: "int \<Rightarrow> int \<Rightarrow> int \<Rightarrow> int \<Rightarrow> change list \<Rightarrow> hunk" where
  "make_hunk os oc ns nc chs =
     \<lparr> h_content = ''@@ -'' @ str_int os @ '','' @ str_int oc @ '' +'' @ str_int ns @ '',''
                     @ str_int nc @ '' @@'',
       oldStart = os, oldLines = oc, newStart = ns, newLines = nc, changes = chs \<rparr>"

text \<open>
  The variables of the loop over the opcodes. \<open>last_i2\<close> and \<open>last_j2\<close> are the
  loop variables \<^verbatim>\<open>i2\<close> and \<^verbatim>\<open>j2\<close>, which the code reads after the loop.
\<close>

record diff_state =
  hunks :: "hunk list"
  hunk_changes :: "change list"
  old_start :: int
  new_start :: int
  last_i2 :: int
  last_j2 :: int

definition initial_diff_state :: diff_state where
  "initial_diff_state =
     \<lparr> hunks = [], hunk_changes = [], old_start = 1, new_start = 1, last_i2 = 0, last_j2 = 0 \<rparr>"

text \<open>\<^verbatim>\<open>any(c['type'] != 'context' for c in hunk_changes)\<close>.\<close>

definition has_change :: "change list \<Rightarrow> bool" where
  "has_change chs = list_ex (\<lambda>c. c_type c \<noteq> ''context'') chs"

text \<open>One iteration of the loop; \<^const>\<open>None\<close> when an index raises.\<close>

definition diff_step ::
  "string list \<Rightarrow> string list \<Rightarrow> diff_state \<Rightarrow> opcode \<Rightarrow> diff_state option" where
  "diff_step old_lines new_lines st opc =
     (case opc of (tag, i1, i2, j1, j2) \<Rightarrow>
        if tag = ''equal'' \<and> i2 - i1 > 10 then
          (case collect (\<lambda>i. map_option
                                (\<lambda>l. context_entry l (old_start st + i - i1) (new_start st + i - i1))
                                (py_index old_lines i))
                  (py_range i1 (min (i1 + 3) i2)) of
             None \<Rightarrow> None
           | Some first \<Rightarrow>
               (let chs = hunk_changes st @ first;
                    hs = (if has_change chs
                          then hunks st @ [make_hunk (old_start st) (i1 + 3 - old_start st)
                                             (new_start st) (j1 + 3 - new_start st) chs]
                          else hunks st);
                    os = max 1 (i2 - 3);
                    ns = max 1 (j2 - 3)
                in case collect (\<lambda>i. map_option
                                        (\<lambda>l. context_entry l (os + i - max i1 (i2 - 3))
                                                              (ns + i - max i1 (i2 - 3)))
                                        (py_index old_lines i))
                          (py_range (max i1 (i2 - 3)) i2) of
                     None \<Rightarrow> None
                   | Some second \<Rightarrow>
                       Some \<lparr> hunks = hs, hunk_changes = second, old_start = os, new_start = ns,
                              last_i2 = i2, last_j2 = j2 \<rparr>))
        else
          (let dels = collect (\<lambda>i. map_option (\<lambda>l. delete_entry l (old_start st + i - i1))
                                      (py_index old_lines i)) (py_range i1 i2);
               inss = collect (\<lambda>j. map_option (\<lambda>l. insert_entry l (new_start st + j - j1))
                                      (py_index new_lines j)) (py_range j1 j2);
               eqs = collect (\<lambda>i. map_option
                                     (\<lambda>l. context_entry ('' '' @ l) (old_start st + i - i1)
                                                           (new_start st + j1 + i - i1))
                                     (py_index old_lines i)) (py_range i1 i2);
               added =
                 (if tag = ''replace'' then
                    (case dels of
                       None \<Rightarrow> None
                     | Some ds \<Rightarrow> (case inss of None \<Rightarrow> None | Some ns \<Rightarrow> Some (ds @ ns)))
                  else if tag = ''delete'' then dels
                  else if tag = ''insert'' then inss
                  else if tag = ''equal'' then eqs
                  else Some [])
           in case added of
                None \<Rightarrow> None
              | Some new_entries \<Rightarrow>
                  Some (st\<lparr> hunk_changes := hunk_changes st @ new_entries,
                           last_i2 := i2, last_j2 := j2 \<rparr>)))"

fun run_opcodes ::
  "string list \<Rightarrow> string list \<Rightarrow> diff_state \<Rightarrow> opcode list \<Rightarrow> diff_state option" where
  "run_opcodes old_lines new_lines st [] = Some st"
| "run_opcodes old_lines new_lines st (opc # rest) =
     (case diff_step old_lines new_lines st opc of
        None \<Rightarrow> None
      | Some st' \<Rightarrow> run_opcodes old_lines new_lines st' rest)"

text \<open>The last hunk, added after the loop when \<^verbatim>\<open>hunk_changes\<close> is not empty.\<close>

definition close_diff :: "diff_state \<Rightarrow> diff_data" where
  "close_diff st =
     (if hunk_changes st \<noteq> [] then
        hunks st @ [make_hunk (old_start st) (last_i2 st - old_start st)
                      (new_start st) (last_j2 st - new_start st) (hunk_changes st)]
      else hunks st)"

text \<open>
  Library functions the diff engine calls: \<^verbatim>\<open>str.splitlines\<close>,
  \<^verbatim>\<open>SequenceMatcher(None, a, b).get_opcodes()\<close>, \<^verbatim>\<open>json.dump\<close> of a diff document, and
  the image pipeline of \<^verbatim>\<open>_generate_visual_diff\<close> (from two screenshot paths to the
  bytes of the annotated image, or nothing when it fails).
\<close>

record diff_env =
  splitlines :: "string \<Rightarrow> string list"
  get_opcodes :: "string list \<Rightarrow> string list \<Rightarrow> opcode list"
  json_dump :: "diff_data \<Rightarrow> string"
  render_visual_diff :: "string \<Rightarrow> string \<Rightarrow> string option"

definition generate_text_diff :: "diff_env \<Rightarrow> string \<Rightarrow> string \<Rightarrow> diff_data option" where
  "generate_text_diff env old_content new_content =
     (let old_lines = splitlines env old_content;
          new_lines = splitlines env new_content;
          opcodes = get_opcodes env old_lines new_lines
      in map_option close_diff (run_opcodes old_lines new_lines initial_diff_state opcodes))"

text \<open>The types a change entry of the diff document may have (section 6 of the specification).\<close>

definition document_type :: "change \<Rightarrow> bool" where
  "document_type c = (c_type c = ''context'' \<or> c_type c = ''delete'' \<or> c_type c = ''insert'')"

definition is_context :: "change \<Rightarrow> bool" where
  "is_context c = (c_type c = ''context'')"

text \<open>The invariant of the loop: every entry built so far has a type of the document.\<close>

definition typed_state :: "diff_state \<Rightarrow> bool" where
  "typed_state st =
     (list_all (\<lambda>h. list_all document_type (changes h)) (hunks st) \<and>
      list_all document_type (hunk_changes st))"

text \<open>
  An opcode whose ranges lie inside the two line lists, as every opcode of
  \<^verbatim>\<open>SequenceMatcher\<close> does.
\<close>

definition opcode_in_range :: "string list \<Rightarrow> string list \<Rightarrow> opcode \<Rightarrow> bool" where
  "opcode_in_range ol nl opc =
     (case opc of (tag, i1, i2, j1, j2) \<Rightarrow>
        0 \<le> i1 \<and> i1 \<le> i2 \<and> i2 \<le> int (length ol) \<and> 0 \<le> j1 \<and> j1 \<le> j2 \<and> j2 \<le> int (length nl))"

subsection \<open>Statistics (\<^verbatim>\<open>DiffProcessor._calculate_diff_stats\<close>)\<close>

text \<open>The three counters \<^verbatim>\<open>(additions, deletions, changes)\<close> after one more change.\<close>

definition count_change :: "int \<times> int \<times> int \<Rightarrow> change \<Rightarrow> int \<times> int \<times> int" where
  "count_change acc c =
     (case acc of (a, d, r) \<Rightarrow>
        if c_type c = ''insert'' then (a + 1, d, r)
        else if c_type c = ''delete'' then (a, d + 1, r)
        else if c_type c = ''replace'' then (a, d, r + 1)
        else (a, d, r))"

definition calculate_diff_stats :: "diff_data \<Rightarrow> stats" where
  "calculate_diff_stats dd =
     (case foldl (\<lambda>acc h. foldl count_change acc (changes h)) (0, 0, 0) dd of
        (a, d, r) \<Rightarrow> \<lparr> additions = a, deletions = d, st_changes = r, total = a + d + r \<rparr>)"

subsection \<open>Significance (\<^verbatim>\<open>DiffProcessor._determine_significance\<close>)\<close>

definition determine_significance :: "config \<Rightarrow> stats \<Rightarrow> int" where
  "determine_significance cfg st =
     (let total_changes = total st
      in if total_changes < DIFF_SIZE_THRESHOLD cfg then 1
         else if total_changes < DIFF_SIZE_THRESHOLD cfg * 5 then 2
         else 3)"

subsection \<open>Artifact store and \<^verbatim>\<open>DiffProcessor.generate_diff\<close>\<close>






text \<open>\<^verbatim>\<open>_check_diff_exists\<close>: the id of a row for the pair (the first in table order).\<close>

definition check_diff_exists :: "db \<Rightarrow> int \<Rightarrow> int \<Rightarrow> int option" where
  "check_diff_exists d old_id new_id =
     map_option d_id
       (find (\<lambda>row. d_old_snapshot_id row = old_id \<and> d_new_snapshot_id row = new_id) (diffs d))"


definition insert_diff :: "db \<Rightarrow> diff_row \<Rightarrow> int \<times> db" where
  "insert_diff d row =
     (let i = diffs_seq d
      in (i, d\<lparr>diffs := diffs d @ [row\<lparr>d_id := i\<rparr>], diffs_seq := i + 1\<rparr>))"

definition update_diffs :: "db \<Rightarrow> int \<Rightarrow> (diff_row \<Rightarrow> diff_row) \<Rightarrow> db" where
  "update_diffs d i upd =
     d\<lparr>diffs := map (\<lambda>row. if d_id row = i then upd row else row) (diffs d)\<rparr>"




definition pair_of :: "diff_row \<Rightarrow> int \<times> int" where
  "pair_of row = (d_old_snapshot_id row, d_new_snapshot_id row)"



subsection \<open>Example states\<close>

text \<open>
  A crawl job that a worker holds (it is in the processing set), enqueued with
  priority 3, after \<open>n\<close> earlier retries.
\<close>

definition demo_job :: "int \<Rightarrow> redis" where
  "demo_job n =
     \<lparr> hashes = (\<lambda>_. None)(job_key ''j1'' :=
                  Some (empty_hash\<lparr>j_status := Some ''processing'', j_priority := Some 3,
                                   j_retries := Some n\<rparr>)),
       zsets = (\<lambda>_. (\<lambda>_. None)),
       sets = (\<lambda>_. {})(processing_key ''archive:crawl'' := {''j1''}),
       counters = (\<lambda>_. None) \<rparr>"

definition demo_payload :: job_data where
  "demo_payload = [(''id'', JInt 7), (''domain'', JStr ''example.gov'')]"

definition demo_enqueued :: "string \<times> redis" where
  "demo_enqueued = enqueue_job empty_redis ''archive:crawl'' demo_payload 3 1700000000 1700000000"

definition demo_retries :: "queue_op list" where
  "demo_retries =
     [Fail ''archive:crawl'' ''job:1700000000:7'' (Some ''timeout'') True 3 1700000010,
      Fail ''archive:crawl'' ''job:1700000000:7'' None True 3 1700000020]"

text \<open>Sites of a small catalog, and the catalog with two queue entries.\<close>

definition mk_site :: "int \<Rightarrow> string \<Rightarrow> int \<Rightarrow> int option \<Rightarrow> bool \<Rightarrow> archive" where
  "mk_site i name prio checked en =
     \<lparr> a_id = Some i, a_domain = name, a_domain_type = None, a_agency = None,
       a_organization_name = None, a_city = None, a_state = None,
       a_security_contact_email = None, a_priority = prio, a_created_at = 0,
       last_checked_at = checked, last_changed_at = None, a_enabled = en \<rparr>"

definition demo_catalog :: db where
  "demo_catalog =
     empty_db\<lparr> archives :=
                 [mk_site 1 ''example.gov'' 3 (Some 100) True,
                  mk_site 2 ''agency.gov'' 1 None True,
                  mk_site 3 ''old.gov'' 1 (Some 50) False,
                  mk_site 4 ''busy.gov'' 1 (Some 10) True,
                  mk_site 5 ''city.gov'' 1 (Some 60) True],
               archives_seq := 6,
               archive_queue :=
                 [\<lparr> q_id = 1, q_archive_id = Some 4, q_operation = ''crawl'',
                    q_status = ''pending'', q_priority = 1, q_scheduled_for = 90 \<rparr>,
                  \<lparr> q_id = 2, q_archive_id = Some 1, q_operation = ''crawl'',
                    q_status = ''completed'', q_priority = 3, q_scheduled_for = 95 \<rparr>],
               archive_queue_seq := 3 \<rparr>"

text \<open>A catalog whose only site was checked one second ago.\<close>

definition fresh_catalog :: db where
  "fresh_catalog = empty_db\<lparr>archives := [mk_site 1 ''example.gov'' 1 (Some 100) True], archives_seq := 2\<rparr>"

text \<open>
  A world with the site \<^verbatim>\<open>example.gov\<close>, checked at time 100, and one snapshot of it
  taken at time 100 with content hash \<^verbatim>\<open>H1\<close>; the clock reads 1000, 1001, ...
\<close>

definition demo_snapshot :: snapshot where
  "demo_snapshot =
     \<lparr> s_id = Some 1, s_archive_id = Some 1, capture_timestamp = 100, warc_path = None,
       screenshot_path = None, html_path = Some ''/tmp/a/content.html'',
       text_path = Some ''/tmp/a/content.txt'', pdf_path = None,
       content_hash = Some ''H1'', s_status = Some 200, size_bytes = Some 5,
       error_message = None, s_metadata = [] \<rparr>"

definition demo_world :: world where
  "demo_world =
     \<lparr> w_db = empty_db\<lparr> archives := [mk_site 1 ''example.gov'' 3 (Some 100) True],
                          archives_seq := 2,
                          snapshots := [demo_snapshot], snapshots_seq := 2 \<rparr>,
       w_redis = empty_redis,
       active_crawls = {},
       clock = (\<lambda>n. 1000 + int n),
       reads = 0 \<rparr>"

text \<open>
  The collaborators of a crawl that answers with the given status and body. The
  digest is a stand-in for SHA-256: any function of the body serves in an example.
\<close>

definition demo_env :: "int \<Rightarrow> string \<Rightarrow> crawl_env" where
  "demo_env status_code body =
     \<lparr> fetch = (\<lambda>url. Response status_code body url),
       sha256_hexdigest = (\<lambda>s. ''digest:'' @ s),
       temp_dir = ''/tmp/b'',
       temp_write_error = None,
       screenshot_taken = False,
       pdf_generated = False,
       warc_written = True \<rparr>"

text \<open>
  Two contents of three lines that differ in the second line, with the opcodes
  \<^verbatim>\<open>SequenceMatcher\<close> gives for them; the line splitter stands in for
  \<^verbatim>\<open>str.splitlines\<close> on texts whose only line boundary is the newline character.
\<close>

fun split_lines :: "string \<Rightarrow> string \<Rightarrow> string list" where
  "split_lines cur [] = (if cur = [] then [] else [cur])"
| "split_lines cur (c # cs) =
     (if c = CHR 0x0A then cur # split_lines [] cs else split_lines (cur @ [c]) cs)"

definition demo_old_content :: string where
  "demo_old_content = ''a'' @ [CHR 0x0A] @ ''b'' @ [CHR 0x0A] @ ''c''"

definition demo_new_content :: string where
  "demo_new_content = ''a'' @ [CHR 0x0A] @ ''x'' @ [CHR 0x0A] @ ''c''"

definition demo_diff_env :: diff_env where
  "demo_diff_env =
     \<lparr> splitlines = split_lines [],
       get_opcodes = (\<lambda>a b. [(''equal'', 0, 1, 0, 1), (''replace'', 1, 2, 1, 2),
                               (''equal'', 2, 3, 2, 3)]),
       json_dump = (\<lambda>dd. concat (map h_content dd)),
       render_visual_diff = (\<lambda>a b. None) \<rparr>"

definition demo_diff :: diff_data where
  "demo_diff =
     [\<lparr> h_content = ''@@ -1,2 +1,2 @@'', oldStart = 1, oldLines = 2, newStart = 1, newLines = 2,
        changes = [context_entry '' a'' 1 1, delete_entry ''b'' 1, insert_entry ''x'' 1,
                   context_entry '' c'' 1 3] \<rparr>]"

definition demo_lines :: "string list" where
  "demo_lines = [''l0'', ''l1'', ''l2'', ''l3'', ''l4'', ''l5'', ''l6'', ''l7'', ''l8'', ''l9'',
                 ''l10'', ''l11'']"

definition demo_diff_state :: diff_state where
  "demo_diff_state = initial_diff_state\<lparr>hunk_changes := [insert_entry ''new'' 1]\<rparr>"

definition demo_state_10 :: diff_state where
  "demo_state_10 =
     demo_diff_state\<lparr>hunk_changes :=
          [insert_entry ''new'' 1,
           context_entry '' l0'' 1 2, context_entry '' l1'' 2 3, context_entry '' l2'' 3 4,
           context_entry '' l3'' 4 5, context_entry '' l4'' 5 6, context_entry '' l5'' 6 7,
           context_entry '' l6'' 7 8, context_entry '' l7'' 8 9, context_entry '' l8'' 9 10,
           context_entry '' l9'' 10 11], last_i2 := 10, last_j2 := 11\<rparr>"

definition demo_state_11 :: diff_state where
  "demo_state_11 =
     \<lparr> hunks = [make_hunk 1 2 1 3
                 [insert_entry ''new'' 1, context_entry ''l0'' 1 1,
                  context_entry ''l1'' 2 2, context_entry ''l2'' 3 3]],
       hunk_changes = [context_entry ''l8'' 8 9, context_entry ''l9'' 9 10,
                       context_entry ''l10'' 10 11],
       old_start = 8, new_start = 9, last_i2 = 11, last_j2 = 12 \<rparr>"







section \<open>Properties\<close>

subsection \<open>Work queue\<close>

lemma str_int_1700000000: "str_int 1700000000 = ''1700000000''"
  by (simp add: str_int_def str_nat.simps digit_char_def)

lemma hget_zadd [simp]: "hget (zadd r k m s) k' f = hget r k' f"
  by (simp add: hget_def zadd_def)

lemma hget_srem [simp]: "hget (srem r k m) k' f = hget r k' f"
  by (simp add: hget_def srem_def)

lemma hget_incr [simp]: "hget (incr r k) k' f = hget r k' f"
  by (simp add: hget_def incr_def)

lemma hget_priority_hset:
  "(\<And>h. j_priority (upd h) = j_priority h) \<Longrightarrow>
   hget (hset r k upd) k' j_priority = hget r k' j_priority"
  by (simp add: hget_def hset_def empty_hash_def split: option.splits)

lemma fail_job_priority:
  "hget (fail_job r q j e retry m now) k j_priority = hget r k j_priority"
  by (simp add: fail_job_def Let_def hget_priority_hset split: option.splits)

lemma complete_job_priority:
  "hget (complete_job r q j res now) k j_priority = hget r k j_priority"
  by (simp add: complete_job_def Let_def hget_priority_hset split: option.splits)

lemma apply_queue_ops_priority:
  "hget (apply_queue_ops r ops) k j_priority = hget r k j_priority"
  unfolding apply_queue_ops_def
proof (induction ops arbitrary: r)
  case Nil
  show ?case by simp
next
  case (Cons x xs)
  show ?case
    by (cases x) (simp_all add: Cons.IH fail_job_priority complete_job_priority)
qed

lemma fail_job_requeue_score:
  "retry \<Longrightarrow> int_or (hget r (job_key j) j_retries) 0 < m \<Longrightarrow>
   zscore (fail_job r q j e retry m now) (queue_key q) j
     = Some (int_or (hget r (job_key j) j_priority) 5 + 1)"
  by (simp add: fail_job_def Let_def zscore_def zadd_def hset_def srem_def hget_def
        empty_hash_def split: option.splits)

lemma enqueue_job_priority:
  "enqueue_job r q jd p t1 t2 = (jid, r0) \<Longrightarrow> hget r0 (job_key jid) j_priority = Some p"
  by (auto simp add: enqueue_job_def Let_def hget_def hset_def zadd_def)

text \<open>
  Claim C6. \<^verbatim>\<open>fail_job\<close>: when a retry is requested and the stored retry counter is
  strictly below \<^verbatim>\<open>max_retries\<close>, the counter grows by one, the job is put back into
  the queue's sorted set with score (stored priority) + 1, its status is \<^verbatim>\<open>pending\<close>
  again and no counter changes. Otherwise, and so also when the counter equals
  \<^verbatim>\<open>max_retries\<close>, the status becomes \<^verbatim>\<open>failed\<close>, the failed counter grows by one
  and the job is not put back. In both cases the job leaves the processing set.
\<close>

theorem fail_job_semantics:
  "(retry \<and> int_or (hget r (job_key j) j_retries) 0 < m \<longrightarrow>
      hget (fail_job r q j e retry m now) (job_key j) j_retries
        = Some (int_or (hget r (job_key j) j_retries) 0 + 1) \<and>
      zscore (fail_job r q j e retry m now) (queue_key q) j
        = Some (int_or (hget r (job_key j) j_priority) 5 + 1) \<and>
      hget (fail_job r q j e retry m now) (job_key j) j_status = Some ''pending'' \<and>
      counters (fail_job r q j e retry m now) = counters r) \<and>
   (\<not> (retry \<and> int_or (hget r (job_key j) j_retries) 0 < m) \<longrightarrow>
      hget (fail_job r q j e retry m now) (job_key j) j_status = Some ''failed'' \<and>
      counters (fail_job r q j e retry m now) (stats_key q ''failed'')
        = Some (int_or (counters r (stats_key q ''failed'')) 0 + 1) \<and>
      hget (fail_job r q j e retry m now) (job_key j) j_retries = hget r (job_key j) j_retries \<and>
      zsets (fail_job r q j e retry m now) = zsets r) \<and>
   (retry \<and> int_or (hget r (job_key j) j_retries) 0 = m \<longrightarrow>
      hget (fail_job r q j e retry m now) (job_key j) j_status = Some ''failed'') \<and>
   sets (fail_job r q j e retry m now) (processing_key q) = sets r (processing_key q) - {j}"
  by (simp add: fail_job_def Let_def zscore_def zadd_def hset_def srem_def incr_def hget_def
        int_or_def empty_hash_def split: option.splits)

theorem fail_job_semantics_witness:
  "hget (fail_job (demo_job 2) ''archive:crawl'' ''j1'' (Some ''timeout'') True 3 100) (job_key ''j1'') j_retries = Some 3 \<and>
   zscore (fail_job (demo_job 2) ''archive:crawl'' ''j1'' (Some ''timeout'') True 3 100) (queue_key ''archive:crawl'') ''j1'' = Some 4 \<and>
   hget (fail_job (demo_job 2) ''archive:crawl'' ''j1'' (Some ''timeout'') True 3 100) (job_key ''j1'') j_status = Some ''pending'' \<and>
   counters (fail_job (demo_job 2) ''archive:crawl'' ''j1'' (Some ''timeout'') True 3 100) (stats_key ''archive:crawl'' ''failed'') = None \<and>
   hget (fail_job (demo_job 3) ''archive:crawl'' ''j1'' (Some ''timeout'') True 3 100) (job_key ''j1'') j_status = Some ''failed'' \<and>
   counters (fail_job (demo_job 3) ''archive:crawl'' ''j1'' (Some ''timeout'') True 3 100) (stats_key ''archive:crawl'' ''failed'') = Some 1 \<and>
   zscore (fail_job (demo_job 3) ''archive:crawl'' ''j1'' (Some ''timeout'') True 3 100) (queue_key ''archive:crawl'') ''j1'' = None \<and>
   sets (fail_job (demo_job 2) ''archive:crawl'' ''j1'' (Some ''timeout'') True 3 100) (processing_key ''archive:crawl'') = {} \<and>
   sets (fail_job (demo_job 3) ''archive:crawl'' ''j1'' (Some ''timeout'') True 3 100) (processing_key ''archive:crawl'') = {}"
  using fail_job_semantics [where r = "demo_job 2" and j = "''j1''" and q = "''archive:crawl''"
          and e = "Some ''timeout''" and retry = True and m = 3 and now = 100]
        fail_job_semantics [where r = "demo_job 3" and j = "''j1''" and q = "''archive:crawl''"
          and e = "Some ''timeout''" and retry = True and m = 3 and now = 100]
  by (simp add: demo_job_def hget_def int_or_def zscore_def)

text \<open>
  Claim C10. The hash field \<^verbatim>\<open>priority\<close> is written by \<^verbatim>\<open>enqueue_job\<close> and by no
  later \<^verbatim>\<open>fail_job\<close> or \<^verbatim>\<open>complete_job\<close>: after a job was enqueued with priority
  \<open>p\<close> and any sequence of \<^verbatim>\<open>fail_job\<close> and \<^verbatim>\<open>complete_job\<close> calls ran (on this or
  any other job), the field still holds \<open>p\<close>, and a further \<^verbatim>\<open>fail_job\<close> that grants
  the retry puts the job back with score \<open>p + 1\<close>, however many retries came before.
\<close>

theorem retry_score_does_not_compound:
  "enqueue_job r q jd p t1 t2 = (jid, r0) \<longrightarrow>
     hget (apply_queue_ops r0 ops) (job_key jid) j_priority = Some p \<and>
     hget (fail_job (apply_queue_ops r0 ops) q' jid e retry m now) (job_key jid) j_priority = Some p \<and>
     hget (complete_job (apply_queue_ops r0 ops) q' jid res now) (job_key jid) j_priority = Some p \<and>
     (retry \<and> int_or (hget (apply_queue_ops r0 ops) (job_key jid) j_retries) 0 < m \<longrightarrow>
        zscore (fail_job (apply_queue_ops r0 ops) q' jid e retry m now) (queue_key q') jid
          = Some (p + 1))"
  by (auto simp add: fail_job_priority complete_job_priority apply_queue_ops_priority
        enqueue_job_priority fail_job_requeue_score int_or_def)

lemma demo_enqueued_id: "fst demo_enqueued = ''job:1700000000:7''"
  by (simp add: demo_enqueued_def enqueue_job_def Let_def str_int_1700000000 job_data_id_def
        demo_payload_def str_int_def str_nat.simps digit_char_def)

theorem retry_score_does_not_compound_witness:
  "fst demo_enqueued = ''job:1700000000:7'' \<and>
   zscore (apply_queue_ops (snd demo_enqueued) (take 1 demo_retries))
     (queue_key ''archive:crawl'') ''job:1700000000:7'' = Some 4 \<and>
   zscore (apply_queue_ops (snd demo_enqueued) demo_retries)
     (queue_key ''archive:crawl'') ''job:1700000000:7'' = Some 4 \<and>
   hget (apply_queue_ops (snd demo_enqueued) demo_retries)
     (job_key ''job:1700000000:7'') j_retries = Some 2 \<and>
   zscore (fail_job (apply_queue_ops (snd demo_enqueued) demo_retries)
             ''archive:crawl'' ''job:1700000000:7'' (Some ''timeout'') True 3 1700000030)
     (queue_key ''archive:crawl'') ''job:1700000000:7'' = Some 4 \<and>
   hget (fail_job (apply_queue_ops (snd demo_enqueued) demo_retries)
             ''archive:crawl'' ''job:1700000000:7'' (Some ''timeout'') True 3 1700000030)
     (job_key ''job:1700000000:7'') j_priority = Some 3"
proof -
  have e: "enqueue_job empty_redis ''archive:crawl'' demo_payload 3 1700000000 1700000000
             = (''job:1700000000:7'', snd demo_enqueued)"
    using demo_enqueued_id by (simp add: demo_enqueued_def prod_eq_iff)
  have r: "hget (apply_queue_ops (snd demo_enqueued) demo_retries)
             (job_key ''job:1700000000:7'') j_retries = Some 2"
    by (simp add: demo_enqueued_def enqueue_job_def Let_def str_int_1700000000 job_data_id_def
          demo_payload_def str_int_def str_nat.simps digit_char_def demo_retries_def
          apply_queue_ops_def fail_job_def hget_def hset_def zadd_def srem_def incr_def
          int_or_def empty_redis_def empty_hash_def job_key_def queue_key_def
          processing_key_def stats_key_def)
  have one: "zscore (apply_queue_ops (snd demo_enqueued) (take 1 demo_retries))
     (queue_key ''archive:crawl'') ''job:1700000000:7'' = Some 4"
    using retry_score_does_not_compound
            [where r = empty_redis and q = "''archive:crawl''" and jd = demo_payload and p = 3
               and ?t1.0 = 1700000000 and ?t2.0 = 1700000000 and jid = "''job:1700000000:7''"
               and ?r0.0 = "snd demo_enqueued" and ops = "[]" and q' = "''archive:crawl''"
               and e = "Some ''timeout''" and retry = True and m = 3 and now = 1700000010] e
    by (simp add: demo_retries_def apply_queue_ops_def demo_enqueued_def enqueue_job_def Let_def
          hget_def hset_def zadd_def int_or_def empty_redis_def empty_hash_def)
  have two: "zscore (apply_queue_ops (snd demo_enqueued) demo_retries)
     (queue_key ''archive:crawl'') ''job:1700000000:7'' = Some 4"
    using retry_score_does_not_compound
            [where r = empty_redis and q = "''archive:crawl''" and jd = demo_payload and p = 3
               and ?t1.0 = 1700000000 and ?t2.0 = 1700000000 and jid = "''job:1700000000:7''"
               and ?r0.0 = "snd demo_enqueued" and q' = "''archive:crawl''" and e = None
               and ops = "take 1 demo_retries"
               and retry = True and m = 3 and now = 1700000020] e
    by (simp add: demo_retries_def apply_queue_ops_def demo_enqueued_def enqueue_job_def Let_def
          fail_job_def hget_def hset_def zadd_def srem_def int_or_def empty_redis_def
          empty_hash_def)
  show ?thesis
    using retry_score_does_not_compound
            [where r = empty_redis and q = "''archive:crawl''" and jd = demo_payload and p = 3
               and ?t1.0 = 1700000000 and ?t2.0 = 1700000000 and jid = "''job:1700000000:7''"
               and ?r0.0 = "snd demo_enqueued" and ops = demo_retries and q' = "''archive:crawl''"
               and e = "Some ''timeout''" and retry = True and m = 3 and now = 1700000030]
          e r one two demo_enqueued_id
    by (simp add: int_or_def)
qed

subsection \<open>Significance\<close>

text \<open>
  Claim C7. The significance is a function of \<^verbatim>\<open>stats['total']\<close> alone. With a
  threshold that is not negative (or a total that is not negative, as every computed
  total is): a total below the threshold gives 1, a total from the threshold up to five
  times the threshold (excluded) gives 2, a total of at least five times the threshold
  gives 3. With a positive threshold, threshold - 1 gives 1 and the threshold itself
  gives 2.
\<close>

theorem determine_significance_classes:
  "(0 \<le> DIFF_SIZE_THRESHOLD cfg \<or> 0 \<le> total st \<longrightarrow>
      (total st < DIFF_SIZE_THRESHOLD cfg \<longrightarrow> determine_significance cfg st = 1) \<and>
      (DIFF_SIZE_THRESHOLD cfg \<le> total st \<and> total st < DIFF_SIZE_THRESHOLD cfg * 5
         \<longrightarrow> determine_significance cfg st = 2) \<and>
      (DIFF_SIZE_THRESHOLD cfg * 5 \<le> total st \<longrightarrow> determine_significance cfg st = 3)) \<and>
   (total st = total st' \<longrightarrow> determine_significance cfg st = determine_significance cfg st') \<and>
   (0 < DIFF_SIZE_THRESHOLD cfg \<longrightarrow>
      (total st = DIFF_SIZE_THRESHOLD cfg - 1 \<longrightarrow> determine_significance cfg st = 1) \<and>
      (total st = DIFF_SIZE_THRESHOLD cfg \<longrightarrow> determine_significance cfg st = 2))"
  by (auto simp add: determine_significance_def Let_def)

theorem determine_significance_classes_witness:
  "determine_significance default_config \<lparr>additions = 4, deletions = 5, st_changes = 0, total = 9\<rparr> = 1 \<and>
   determine_significance default_config \<lparr>additions = 5, deletions = 5, st_changes = 0, total = 10\<rparr> = 2 \<and>
   determine_significance default_config \<lparr>additions = 49, deletions = 0, st_changes = 0, total = 49\<rparr> = 2 \<and>
   determine_significance default_config \<lparr>additions = 25, deletions = 25, st_changes = 0, total = 50\<rparr> = 3"
  using determine_significance_classes [of default_config "\<lparr>additions = 4, deletions = 5, st_changes = 0, total = 9\<rparr>"]
        determine_significance_classes [of default_config "\<lparr>additions = 5, deletions = 5, st_changes = 0, total = 10\<rparr>"]
        determine_significance_classes [of default_config "\<lparr>additions = 49, deletions = 0, st_changes = 0, total = 49\<rparr>"]
        determine_significance_classes [of default_config "\<lparr>additions = 25, deletions = 25, st_changes = 0, total = 50\<rparr>"]
  by (simp add: default_config_def)

subsection \<open>Pending sites\<close>

lemma set_insert_by [simp]: "set (insert_by le x xs) = insert x (set xs)"
  by (induction xs) auto

lemma length_insert_by [simp]: "length (insert_by le x xs) = Suc (length xs)"
  by (induction xs) auto

lemma set_order_by [simp]: "set (order_by le xs) = set xs"
  by (induction xs) (simp_all add: order_by_def)

lemma length_order_by [simp]: "length (order_by le xs) = length xs"
  by (induction xs) (simp_all add: order_by_def)

lemma sorted_insert_by:
  assumes total: "\<And>a b. le a b \<or> le b a"
    and trans: "\<And>a b c. le a b \<Longrightarrow> le b c \<Longrightarrow> le a c"
  shows "sorted_wrt le xs \<Longrightarrow> sorted_wrt le (insert_by le x xs)"
proof (induction xs)
  case Nil
  show ?case by simp
next
  case (Cons y ys)
  show ?case
  proof (cases "le x y")
    case True
    with Cons.prems trans show ?thesis by auto
  next
    case False
    with total have "le y x" by blast
    with Cons False show ?thesis by auto
  qed
qed

lemma sorted_order_by:
  assumes total: "\<And>a b. le a b \<or> le b a"
    and trans: "\<And>a b c. le a b \<Longrightarrow> le b c \<Longrightarrow> le a c"
  shows "sorted_wrt le (order_by le xs)"
proof (induction xs)
  case Nil
  show ?case by (simp add: order_by_def)
next
  case (Cons x xs)
  have "order_by le (x # xs) = insert_by le x (order_by le xs)"
    by (simp add: order_by_def)
  with Cons sorted_insert_by [of le, OF total trans] show ?case by simp
qed

lemma archive_order_total: "archive_order a b \<or> archive_order b a"
  by (auto simp add: archive_order_def split: option.splits)

lemma archive_order_trans: "archive_order a b \<Longrightarrow> archive_order b c \<Longrightarrow> archive_order a c"
  by (auto simp add: archive_order_def split: option.splits)

lemma sorted_wrt_take: "sorted_wrt P xs \<Longrightarrow> sorted_wrt P (take n xs)"
  by (metis append_take_drop_id sorted_wrt_append)

lemma join_rows:
  "map fst (filter (\<lambda>(a, q). a_enabled a \<and> q = None)
      (concat (map (\<lambda>a. (let ms = filter (join_condition a) qs
                          in if ms = [] then [(a, None)] else map (\<lambda>q. (a, Some q)) ms)) as)))
   = filter (\<lambda>a. a_enabled a \<and> filter (join_condition a) qs = []) as"
proof (induction as)
  case Nil
  show ?case by simp
next
  case (Cons a as)
  have "filter (\<lambda>(a, q). a_enabled a \<and> q = None) (map (\<lambda>q. (a, Some q)) ms) = []" for ms :: "queue_entry list"
    by (induction ms) simp_all
  with Cons show ?case by (simp add: Let_def)
qed

lemma get_pending_eq:
  "get_pending d n =
     (if n < 0 then None
      else Some (take (nat n) (order_by archive_order
                   (filter (\<lambda>a. a_enabled a \<and> \<not> outstanding d a) (archives d)))))"
  by (simp add: get_pending_def left_join_queue_def join_rows outstanding_def)

text \<open>
  Claim C2, as the query decides it. For a limit \<open>n \<ge> 0\<close> the query returns rows
  (a negative limit is rejected by the database). It returns at most \<open>n\<close> sites; each
  is a row of \<^verbatim>\<open>archives\<close> that is enabled and has no queue entry that is pending or
  in progress; the rows are in the order (priority ascending, \<^verbatim>\<open>last_checked_at\<close>
  ascending with \<^verbatim>\<open>NULL\<close> first); and when the limit does not cut, every such site
  is returned. The time of the last check only orders the rows: no interval is tested.
\<close>

theorem get_pending_rows:
  "(0 \<le> n \<longrightarrow> get_pending d n \<noteq> None) \<and>
   (get_pending d n = Some rows \<longrightarrow>
      int (length rows) \<le> n \<and>
      (\<forall>a \<in> set rows. a \<in> set (archives d) \<and> a_enabled a \<and> \<not> outstanding d a) \<and>
      sorted_wrt archive_order rows \<and>
      (int (length (filter (\<lambda>a. a_enabled a \<and> \<not> outstanding d a) (archives d))) \<le> n \<longrightarrow>
         set rows = {a \<in> set (archives d). a_enabled a \<and> \<not> outstanding d a}))"
proof -
  let ?el = "filter (\<lambda>a. a_enabled a \<and> \<not> outstanding d a) (archives d)"
  have s: "sorted_wrt archive_order (take (nat n) (order_by archive_order ?el))"
  proof (rule sorted_wrt_take, rule sorted_order_by)
    show "archive_order a b \<or> archive_order b a" for a b
      by (rule archive_order_total)
    show "archive_order a b \<Longrightarrow> archive_order b c \<Longrightarrow> archive_order a c" for a b c
      by (rule archive_order_trans)
  qed
  have m: "set (take (nat n) (order_by archive_order ?el)) \<subseteq> set ?el"
    using set_take_subset [of "nat n" "order_by archive_order ?el"] by simp
  show ?thesis
    using s m by (auto simp add: get_pending_eq split: if_splits)
qed

theorem get_pending_rows_witness:
  "get_pending demo_catalog 2
     = Some [mk_site 2 ''agency.gov'' 1 None True, mk_site 5 ''city.gov'' 1 (Some 60) True] \<and>
   get_pending demo_catalog 10
     = Some [mk_site 2 ''agency.gov'' 1 None True, mk_site 5 ''city.gov'' 1 (Some 60) True,
             mk_site 1 ''example.gov'' 3 (Some 100) True] \<and>
   sorted_wrt archive_order
     [mk_site 2 ''agency.gov'' 1 None True, mk_site 5 ''city.gov'' 1 (Some 60) True] \<and>
   \<not> outstanding demo_catalog (mk_site 5 ''city.gov'' 1 (Some 60) True) \<and>
   outstanding demo_catalog (mk_site 4 ''busy.gov'' 1 (Some 10) True)"
proof -
  have two: "get_pending demo_catalog 2
     = Some [mk_site 2 ''agency.gov'' 1 None True, mk_site 5 ''city.gov'' 1 (Some 60) True]"
    by (simp add: get_pending_def left_join_queue_def join_condition_def demo_catalog_def
          empty_db_def order_by_def archive_order_def mk_site_def)
  have ten: "get_pending demo_catalog 10
     = Some [mk_site 2 ''agency.gov'' 1 None True, mk_site 5 ''city.gov'' 1 (Some 60) True,
             mk_site 1 ''example.gov'' 3 (Some 100) True]"
    by (simp add: get_pending_def left_join_queue_def join_condition_def demo_catalog_def
          empty_db_def order_by_def archive_order_def mk_site_def)
  have busy: "outstanding demo_catalog (mk_site 4 ''busy.gov'' 1 (Some 10) True)"
    by (simp add: outstanding_def join_condition_def demo_catalog_def empty_db_def mk_site_def)
  show ?thesis
    using get_pending_rows [of 2 demo_catalog
            "[mk_site 2 ''agency.gov'' 1 None True, mk_site 5 ''city.gov'' 1 (Some 60) True]"]
          two ten busy
    by simp
qed

text \<open>
  Claim C2 as stated fails: a site checked at time 100 whose tier has an interval of
  one week is returned at time 101, although its next check is not due.
\<close>

theorem get_pending_ignores_interval:
  "get_pending fresh_catalog 10 = Some [mk_site 1 ''example.gov'' 1 (Some 100) True] \<and>
   \<not> spec_next_check_passed default_config 101 (mk_site 1 ''example.gov'' 1 (Some 100) True)"
  by (simp add: get_pending_def left_join_queue_def fresh_catalog_def empty_db_def order_by_def
        spec_next_check_passed_def spec_interval_def default_config_def mk_site_def)

subsection \<open>Captures that are not answered with status 200\<close>

lemma str_int_503: "str_int 503 = ''503''"
  by (simp add: str_int_def str_nat.simps digit_char_def)

text \<open>
  Claim C3, as the code decides it. When the response status is not 200 the crawl
  result is unsuccessful and records the status (in \<^verbatim>\<open>status_code\<close> and in the error
  text \<^verbatim>\<open>HTTP status code: N\<close>); \<^verbatim>\<open>crawl_archive\<close> returns \<^verbatim>\<open>False\<close> and leaves
  the archive object, the whole database (so no snapshot row is written and
  \<^verbatim>\<open>last_checked_at\<close> keeps its value) and the work queue as they were.
\<close>

theorem non_200_is_terminal:
  "fetch env (''https://'' @ a_domain archive) = Response status_code body final_url \<and>
   status_code \<noteq> 200 \<longrightarrow>
     \<not> cr_success (crawl cfg env (a_domain archive) t) \<and>
     cr_status_code (crawl cfg env (a_domain archive) t) = Some status_code \<and>
     cr_error (crawl cfg env (a_domain archive) t)
       = Some (''HTTP status code: '' @ str_int status_code) \<and>
     fst (crawl_archive cfg env w archive) = False \<and>
     fst (snd (crawl_archive cfg env w archive)) = archive \<and>
     w_db (snd (snd (crawl_archive cfg env w archive))) = w_db w \<and>
     w_redis (snd (snd (crawl_archive cfg env w archive))) = w_redis w \<and>
     active_crawls (snd (snd (crawl_archive cfg env w archive))) \<subseteq> active_crawls w"
  by (auto simp add: crawl_def crawl_archive_def Let_def datetime_now_def)

theorem non_200_is_terminal_witness:
  "cr_error (crawl default_config (demo_env 503 ''down'') ''example.gov'' 1000)
     = Some ''HTTP status code: 503'' \<and>
   cr_status_code (crawl default_config (demo_env 503 ''down'') ''example.gov'' 1000) = Some 503 \<and>
   fst (crawl_archive default_config (demo_env 503 ''down'') demo_world
          (mk_site 1 ''example.gov'' 3 (Some 100) True)) = False \<and>
   snapshots (w_db (snd (snd (crawl_archive default_config (demo_env 503 ''down'') demo_world
          (mk_site 1 ''example.gov'' 3 (Some 100) True))))) = [demo_snapshot]"
  using non_200_is_terminal [where env = "demo_env 503 ''down''"
          and archive = "mk_site 1 ''example.gov'' 3 (Some 100) True" and status_code = 503
          and body = "''down''" and final_url = "''https://example.gov''"
          and cfg = default_config and t = 1000 and w = demo_world]
  by (simp add: demo_env_def mk_site_def str_int_503 demo_world_def)

text \<open>
  Claim C3 as stated fails: after a capture answered with 503 at clock reading 1000,
  \<^verbatim>\<open>last_checked_at\<close> of the site is still 100, in the row and in the object.
\<close>

theorem non_200_check_time_not_advanced:
  "fst (crawl_archive default_config (demo_env 503 ''down'') demo_world
          (mk_site 1 ''example.gov'' 3 (Some 100) True)) = False \<and>
   map last_checked_at (archives (w_db demo_world)) = [Some 100] \<and>
   map last_checked_at
     (archives (w_db (snd (snd (crawl_archive default_config (demo_env 503 ''down'') demo_world
          (mk_site 1 ''example.gov'' 3 (Some 100) True)))))) = [Some 100] \<and>
   last_checked_at (fst (snd (crawl_archive default_config (demo_env 503 ''down'') demo_world
          (mk_site 1 ''example.gov'' 3 (Some 100) True)))) = Some 100 \<and>
   clock demo_world (reads demo_world) = 1000"
  by (simp add: crawl_def crawl_archive_def Let_def datetime_now_def demo_env_def mk_site_def
        demo_world_def)

subsection \<open>Change detection\<close>

lemma latest_of_append_new:
  "\<forall>s \<in> set ss. capture_timestamp s < capture_timestamp n \<Longrightarrow> latest_of (ss @ [n]) = Some n"
  by (induction ss) (auto split: option.splits)

lemma process_changes_latest_is_new:
  "get_latest_for_archive (w_db w) (a_id archive) = Some new_snapshot \<Longrightarrow>
   process_changes w archive new_snapshot = (archive, w)"
  by (simp add: process_changes_def)

lemma get_latest_after_insert:
  assumes "\<forall>s \<in> set (snapshots d). s_archive_id s = Some i \<longrightarrow> capture_timestamp s < capture_timestamp n"
    and "s_archive_id n = Some i"
  shows "get_latest_for_archive (snd (insert_snapshot d n)) (Some i)
           = Some (n\<lparr>s_id := Some (snapshots_seq d)\<rparr>)"
proof -
  have "latest_of (filter (\<lambda>s. s_archive_id s = Some i) (snapshots d) @ [n\<lparr>s_id := Some (snapshots_seq d)\<rparr>])
          = Some (n\<lparr>s_id := Some (snapshots_seq d)\<rparr>)"
    by (rule latest_of_append_new) (use assms in auto)
  with assms(2) show ?thesis
    by (simp add: get_latest_for_archive_def insert_snapshot_def Let_def)
qed

lemma crawl_archive_never_queues_diff:
  assumes old: "\<forall>s \<in> set (snapshots (w_db w)).
             s_archive_id s = a_id archive \<longrightarrow> capture_timestamp s < clock w (reads w + 2)"
  shows "w_redis (snd (snd (crawl_archive cfg env w archive))) = w_redis w \<and>
         archive_queue (w_db (snd (snd (crawl_archive cfg env w archive)))) = archive_queue (w_db w) \<and>
         last_changed_at (fst (snd (crawl_archive cfg env w archive))) = last_changed_at archive"
proof (cases "a_id archive")
  case None
  then show ?thesis
    by (simp add: crawl_archive_def Let_def datetime_now_def update_check_time_def
        update_archives_def snapshot_save_def truthy_id_def insert_snapshot_def
        process_changes_def get_latest_for_archive_def split: prod.splits)
next
  case (Some i)
  let ?d1 = "update_archives (w_db w) (Some i) (\<lambda>row. row\<lparr>last_checked_at := Some (clock w (Suc (reads w)))\<rparr>)"
  let ?r = "crawl cfg env (a_domain archive) (clock w (reads w))"
  let ?n = "\<lparr> s_id = None, s_archive_id = Some i,
              capture_timestamp = clock w (Suc (Suc (reads w))),
              warc_path = cr_warc_path ?r, screenshot_path = cr_screenshot_path ?r,
              html_path = cr_html_path ?r, text_path = cr_text_path ?r,
              pdf_path = cr_pdf_path ?r, content_hash = cr_content_hash ?r,
              s_status = cr_status_code ?r, size_bytes = cr_size_bytes ?r,
              error_message = None, s_metadata = cr_metadata ?r \<rparr>"
  have sn: "snapshots ?d1 = snapshots (w_db w)" "snapshots_seq ?d1 = snapshots_seq (w_db w)"
    "archive_queue ?d1 = archive_queue (w_db w)"
    by (simp_all add: update_archives_def)
  have "get_latest_for_archive (snd (insert_snapshot ?d1 ?n)) (Some i)
          = Some (?n\<lparr>s_id := Some (snapshots_seq ?d1)\<rparr>)"
    by (rule get_latest_after_insert) (use old Some sn in auto)
  then show ?thesis
    using Some sn
    by (simp add: crawl_archive_def Let_def datetime_now_def update_check_time_def
        snapshot_save_def truthy_id_def process_changes_def insert_snapshot_def
        split: prod.splits)
qed

text \<open>
  Claim C1 on the code. The site \<^verbatim>\<open>example.gov\<close> has one snapshot with content hash
  \<^verbatim>\<open>H1\<close>, taken at time 100. A capture at clock readings 1000, 1001, ... succeeds with
  a body whose hash differs. The new snapshot is saved with id 2, but
  \<^verbatim>\<open>get_latest_for_archive\<close> returns this new snapshot itself, the comparison of ids
  ends \<^verbatim>\<open>_process_changes\<close>, and so no diff job is put into the work queue, no queue
  entry is written and \<^verbatim>\<open>last_changed_at\<close> stays unset.
\<close>

theorem changed_capture_queues_no_diff:
  "fst (crawl_archive default_config (demo_env 200 ''new'') demo_world
          (mk_site 1 ''example.gov'' 3 (Some 100) True)) = True \<and>
   map content_hash
     (snapshots (w_db (snd (snd (crawl_archive default_config (demo_env 200 ''new'') demo_world
          (mk_site 1 ''example.gov'' 3 (Some 100) True))))))
     = [Some ''H1'', Some ''digest:new''] \<and>
   map s_id
     (snapshots (w_db (snd (snd (crawl_archive default_config (demo_env 200 ''new'') demo_world
          (mk_site 1 ''example.gov'' 3 (Some 100) True))))))
     = [Some 1, Some 2] \<and>
   archive_queue (w_db (snd (snd (crawl_archive default_config (demo_env 200 ''new'') demo_world
          (mk_site 1 ''example.gov'' 3 (Some 100) True))))) = [] \<and>
   w_redis (snd (snd (crawl_archive default_config (demo_env 200 ''new'') demo_world
          (mk_site 1 ''example.gov'' 3 (Some 100) True)))) = empty_redis \<and>
   map last_changed_at
     (archives (w_db (snd (snd (crawl_archive default_config (demo_env 200 ''new'') demo_world
          (mk_site 1 ''example.gov'' 3 (Some 100) True)))))) = [None] \<and>
   map last_checked_at
     (archives (w_db (snd (snd (crawl_archive default_config (demo_env 200 ''new'') demo_world
          (mk_site 1 ''example.gov'' 3 (Some 100) True)))))) = [Some 1001]"
  by (simp add: crawl_archive_def crawl_def Let_def datetime_now_def demo_env_def mk_site_def
        demo_world_def demo_snapshot_def default_config_def update_check_time_def
        update_archives_def snapshot_save_def truthy_id_def insert_snapshot_def
        process_changes_def get_latest_for_archive_def empty_db_def path_join_def)

subsection \<open>The two timestamps of a site\<close>




subsection \<open>Textual diff\<close>

lemma collect_all:
  "collect f xs = Some ys \<Longrightarrow> (\<And>i y. f i = Some y \<Longrightarrow> P y) \<Longrightarrow> list_all P ys"
  by (induction xs arbitrary: ys) (auto split: option.splits)

lemma collect_length: "collect f xs = Some ys \<Longrightarrow> length ys = length xs"
  by (induction xs arbitrary: ys) (auto split: option.splits)

lemma length_py_range: "length (py_range a b) = nat (b - a)"
  by (simp add: py_range_def)

lemma context_entry_type [simp]: "c_type (context_entry l a b) = ''context''"
  by (simp add: context_entry_def)

lemma delete_entry_type [simp]: "c_type (delete_entry l a) = ''delete''"
  by (simp add: delete_entry_def)

lemma insert_entry_type [simp]: "c_type (insert_entry l a) = ''insert''"
  by (simp add: insert_entry_def)

lemma collect_context:
  "collect (\<lambda>i. map_option (\<lambda>l. context_entry (g l) (a i) (b i)) (h i)) xs = Some ys
   \<Longrightarrow> list_all is_context ys"
  by (erule collect_all) (auto simp add: is_context_def)

lemma collect_delete:
  "collect (\<lambda>i. map_option (\<lambda>l. delete_entry l (a i)) (h i)) xs = Some ys
   \<Longrightarrow> list_all document_type ys"
  by (erule collect_all) (auto simp add: document_type_def)

lemma collect_insert:
  "collect (\<lambda>i. map_option (\<lambda>l. insert_entry l (a i)) (h i)) xs = Some ys
   \<Longrightarrow> list_all document_type ys"
  by (erule collect_all) (auto simp add: document_type_def)

lemma context_document: "list_all is_context ys \<Longrightarrow> list_all document_type ys"
  by (induction ys) (auto simp add: is_context_def document_type_def)

lemma diff_step_typed:
  assumes "diff_step ol nl st opc = Some st'" and "typed_state st"
  shows "typed_state st'"
proof -
  obtain tag i1 i2 j1 j2 where opc: "opc = (tag, i1, i2, j1, j2)"
    by (cases opc) auto
  show ?thesis
  proof (cases "tag = ''equal'' \<and> i2 - i1 > 10")
    case True
    with assms opc obtain first second where
      f: "collect (\<lambda>i. map_option
                                (\<lambda>l. context_entry l (old_start st + i - i1) (new_start st + i - i1))
                                (py_index ol i))
                  (py_range i1 (min (i1 + 3) i2)) = Some first"
      and s: "collect (\<lambda>i. map_option
                                        (\<lambda>l. context_entry l (max 1 (i2 - 3) + i - max i1 (i2 - 3))
                                                              (max 1 (j2 - 3) + i - max i1 (i2 - 3)))
                                        (py_index ol i))
                          (py_range (max i1 (i2 - 3)) i2) = Some second"
      and st': "st' = \<lparr> hunks = (if has_change (hunk_changes st @ first)
                          then hunks st @ [make_hunk (old_start st) (i1 + 3 - old_start st)
                                             (new_start st) (j1 + 3 - new_start st) (hunk_changes st @ first)]
                          else hunks st), hunk_changes = second, old_start = max 1 (i2 - 3),
                         new_start = max 1 (j2 - 3), last_i2 = i2, last_j2 = j2 \<rparr>"
      by (auto simp add: diff_step_def Let_def split: option.splits)
    from f have "list_all document_type first"
      by (rule collect_all) (auto simp add: document_type_def)
    moreover from s have "list_all document_type second"
      by (rule collect_all) (auto simp add: document_type_def)
    ultimately show ?thesis
      using assms(2) by (simp add: st' typed_state_def make_hunk_def)
  next
    case False
    with assms opc obtain new_entries where
      n: "(if tag = ''replace'' then
                    (case collect (\<lambda>i. map_option (\<lambda>l. delete_entry l (old_start st + i - i1))
                                      (py_index ol i)) (py_range i1 i2) of
                       None \<Rightarrow> None
                     | Some ds \<Rightarrow> (case collect (\<lambda>j. map_option (\<lambda>l. insert_entry l (new_start st + j - j1))
                                      (py_index nl j)) (py_range j1 j2) of None \<Rightarrow> None | Some ns \<Rightarrow> Some (ds @ ns)))
                  else if tag = ''delete'' then collect (\<lambda>i. map_option (\<lambda>l. delete_entry l (old_start st + i - i1))
                                      (py_index ol i)) (py_range i1 i2)
                  else if tag = ''insert'' then collect (\<lambda>j. map_option (\<lambda>l. insert_entry l (new_start st + j - j1))
                                      (py_index nl j)) (py_range j1 j2)
                  else if tag = ''equal'' then collect (\<lambda>i. map_option
                                     (\<lambda>l. context_entry ('' '' @ l) (old_start st + i - i1)
                                                           (new_start st + j1 + i - i1))
                                     (py_index ol i)) (py_range i1 i2)
                  else Some []) = Some new_entries"
      and st': "st' = st\<lparr> hunk_changes := hunk_changes st @ new_entries, last_i2 := i2, last_j2 := j2 \<rparr>"
      by (auto simp add: diff_step_def Let_def split: option.splits if_splits)
    have d: "list_all document_type ys"
      if "collect (\<lambda>i. map_option (\<lambda>l. delete_entry l (old_start st + i - i1))
                                      (py_index ol i)) (py_range i1 i2) = Some ys" for ys
      using that by (rule collect_all) (auto simp add: document_type_def)
    have i: "list_all document_type ys"
      if "collect (\<lambda>j. map_option (\<lambda>l. insert_entry l (new_start st + j - j1))
                                      (py_index nl j)) (py_range j1 j2) = Some ys" for ys
      using that by (rule collect_all) (auto simp add: document_type_def)
    have e: "list_all document_type ys"
      if "collect (\<lambda>i. map_option
                                     (\<lambda>l. context_entry ('' '' @ l) (old_start st + i - i1)
                                                           (new_start st + j1 + i - i1))
                                     (py_index ol i)) (py_range i1 i2) = Some ys" for ys
      using that by (rule collect_all) (auto simp add: document_type_def)
    from n have "list_all document_type new_entries"
      using d i e by (auto split: if_splits option.splits)
    then show ?thesis
      using assms(2) by (simp add: st' typed_state_def)
  qed
qed

lemma run_opcodes_typed:
  "run_opcodes ol nl st ops = Some st' \<Longrightarrow> typed_state st \<Longrightarrow> typed_state st'"
proof (induction ops arbitrary: st)
  case Nil
  then show ?case by simp
next
  case (Cons opc rest)
  then show ?case
    by (auto split: option.splits dest: diff_step_typed)
qed

lemma close_diff_typed:
  "typed_state st \<Longrightarrow> list_all (\<lambda>h. list_all document_type (changes h)) (close_diff st)"
  by (simp add: typed_state_def close_diff_def make_hunk_def)

lemma count_change_no_replace:
  "list_all document_type cs \<Longrightarrow> snd (snd (foldl count_change acc cs)) = snd (snd acc)"
proof (induction cs arbitrary: acc)
  case Nil
  show ?case by simp
next
  case (Cons c cs)
  then show ?case
    by (cases acc) (auto simp add: count_change_def document_type_def)
qed

lemma count_hunks_no_replace:
  "list_all (\<lambda>h. list_all document_type (changes h)) dd \<Longrightarrow>
   snd (snd (foldl (\<lambda>acc h. foldl count_change acc (changes h)) acc dd)) = snd (snd acc)"
  by (induction dd arbitrary: acc) (simp_all add: count_change_no_replace)

lemma str_int_digits: "str_int 1 = ''1''" "str_int 2 = ''2''" "str_int 3 = ''3''" "str_int 8 = ''8''"
  by (simp_all add: str_int_def str_nat.simps digit_char_def)

lemma demo_diff_value:
  "generate_text_diff demo_diff_env demo_old_content demo_new_content = Some demo_diff"
  by (simp add: generate_text_diff_def demo_diff_env_def demo_old_content_def
        demo_new_content_def diff_step_def py_range_def py_index_def Let_def upto.simps
        initial_diff_state_def close_diff_def make_hunk_def str_int_digits demo_diff_def)

text \<open>
  Claim C9. Every change entry of a document that \<^verbatim>\<open>_generate_text_diff\<close> returns
  has the type \<^verbatim>\<open>context\<close>, \<^verbatim>\<open>delete\<close> or \<^verbatim>\<open>insert\<close> (a \<^verbatim>\<open>replace\<close> opcode
  gives delete entries followed by insert entries), so the statistics of the document
  have \<^verbatim>\<open>changes = 0\<close> and \<^verbatim>\<open>total = additions + deletions\<close>.
\<close>

theorem text_diff_change_types:
  "generate_text_diff env old_content new_content = Some dd \<longrightarrow>
     (\<forall>h \<in> set dd. \<forall>c \<in> set (changes h).
         c_type c = ''context'' \<or> c_type c = ''delete'' \<or> c_type c = ''insert'') \<and>
     st_changes (calculate_diff_stats dd) = 0 \<and>
     total (calculate_diff_stats dd)
       = additions (calculate_diff_stats dd) + deletions (calculate_diff_stats dd)"
proof
  assume g: "generate_text_diff env old_content new_content = Some dd"
  then obtain st where
    "run_opcodes (splitlines env old_content) (splitlines env new_content) initial_diff_state
       (get_opcodes env (splitlines env old_content) (splitlines env new_content)) = Some st"
    and dd: "dd = close_diff st"
    by (auto simp add: generate_text_diff_def Let_def)
  moreover have "typed_state initial_diff_state"
    by (simp add: typed_state_def initial_diff_state_def)
  ultimately have "typed_state st"
    by (blast intro: run_opcodes_typed)
  then have t: "list_all (\<lambda>h. list_all document_type (changes h)) dd"
    unfolding dd by (rule close_diff_typed)
  have r: "snd (snd (foldl (\<lambda>acc h. foldl count_change acc (changes h)) (0, 0, 0) dd)) = 0"
    using count_hunks_no_replace [OF t, of "(0, 0, 0)"] by simp
  have types: "\<forall>h \<in> set dd. \<forall>c \<in> set (changes h).
         c_type c = ''context'' \<or> c_type c = ''delete'' \<or> c_type c = ''insert''"
    using t by (auto simp add: list_all_iff document_type_def)
  show "(\<forall>h \<in> set dd. \<forall>c \<in> set (changes h).
         c_type c = ''context'' \<or> c_type c = ''delete'' \<or> c_type c = ''insert'') \<and>
     st_changes (calculate_diff_stats dd) = 0 \<and>
     total (calculate_diff_stats dd)
       = additions (calculate_diff_stats dd) + deletions (calculate_diff_stats dd)"
    using types r by (auto simp add: calculate_diff_stats_def split: prod.splits)
qed

theorem text_diff_change_types_witness:
  "generate_text_diff demo_diff_env demo_old_content demo_new_content = Some demo_diff \<and>
   map c_type (changes (hd demo_diff)) = [''context'', ''delete'', ''insert'', ''context''] \<and>
   calculate_diff_stats demo_diff
     = \<lparr> additions = 1, deletions = 1, st_changes = 0, total = 2 \<rparr>"
  using text_diff_change_types [of demo_diff_env demo_old_content demo_new_content demo_diff]
        demo_diff_value
  by (simp add: demo_diff_def calculate_diff_stats_def count_change_def)

lemma has_change_append_context:
  "list_all is_context ys \<Longrightarrow> has_change (xs @ ys) = has_change xs"
  by (auto simp add: has_change_def is_context_def list_all_iff list_ex_iff)

lemma step10:
  "diff_step demo_lines demo_lines demo_diff_state (''equal'', 0, 10, 1, 11) = Some demo_state_10"
  by (simp add: diff_step_def py_range_def py_index_def Let_def demo_lines_def upto.simps
        demo_diff_state_def initial_diff_state_def demo_state_10_def)

lemma step11:
  "diff_step demo_lines demo_lines demo_diff_state (''equal'', 0, 11, 1, 12) = Some demo_state_11"
  by (simp add: diff_step_def py_range_def py_index_def Let_def demo_lines_def upto.simps
        demo_diff_state_def initial_diff_state_def has_change_def demo_state_11_def)

lemma collect_map: "collect f xs = Some ys \<Longrightarrow> map f xs = map Some ys"
  by (induction xs arbitrary: ys) (auto split: option.splits)

lemma py_range_three: "py_range a (a + 3) = [a, a + 1, a + 2]"
  by (simp add: py_range_def upto_rec1)

lemma py_range_last_three: "py_range (b - 3) b = [b - 3, b - 2, b - 1]"
  using py_range_three [of "b - 3"] by simp

lemma py_index_in_range:
  "0 \<le> i \<Longrightarrow> i < int (length xs) \<Longrightarrow> py_index xs i = Some (xs ! nat i)"
  by (simp add: py_index_def Let_def)

lemma lines_of_range:
  "map Some ys = map (\<lambda>i. map_option (g i) (py_index ol i)) xs \<Longrightarrow>
   (\<And>i. i \<in> set xs \<Longrightarrow> 0 \<le> i \<and> i < int (length ol)) \<Longrightarrow>
   ys = map (\<lambda>i. g i (ol ! nat i)) xs"
proof (induction xs arbitrary: ys)
  case Nil
  then show ?case by simp
next
  case (Cons a xs)
  from Cons.prems(2) [of a] have "py_index ol a = Some (ol ! nat a)"
    by (simp add: py_index_in_range)
  with Cons show ?case
    by (cases ys) auto
qed

text \<open>
  Claim C8. An \<^verbatim>\<open>equal\<close> opcode of at most 10 lines closes nothing and appends to the
  current hunk one context entry for each line \<^verbatim>\<open>old_lines[i]\<close>, \<open>i\<close> from \<open>i1\<close> to
  \<open>i2 - 1\<close>, in order: the region is emitted whole. An \<^verbatim>\<open>equal\<close> opcode of 11 or more
  lines splits: the current hunk gets the first 3 lines of the region as context and
  is closed (it is appended to the hunks when it holds a change, and dropped when it
  holds context only), and the next hunk starts with the last 3 lines of the region as
  context. The second part of the statement gives the entries with the lines
  themselves when the region lies inside \<^verbatim>\<open>old_lines\<close>.
\<close>

theorem equal_region_split_boundary:
  "(diff_step ol nl st (''equal'', i1, i2, j1, j2) = Some st' \<longrightarrow>
     (i2 - i1 \<le> 10 \<longrightarrow>
        hunks st' = hunks st \<and> old_start st' = old_start st \<and> new_start st' = new_start st \<and>
        take (length (hunk_changes st)) (hunk_changes st') = hunk_changes st \<and>
        int (length (hunk_changes st')) = int (length (hunk_changes st)) + max 0 (i2 - i1) \<and>
        list_all is_context (drop (length (hunk_changes st)) (hunk_changes st')) \<and>
        map Some (drop (length (hunk_changes st)) (hunk_changes st'))
          = map (\<lambda>i. map_option
                        (\<lambda>l. \<lparr> c_type = ''context'', c_content = '' '' @ l,
                                oldLine = Some (old_start st + i - i1),
                                newLine = Some (new_start st + j1 + i - i1) \<rparr>)
                        (py_index ol i))
              (py_range i1 i2)) \<and>
     (11 \<le> i2 - i1 \<longrightarrow>
        length (hunk_changes st') = 3 \<and> list_all is_context (hunk_changes st') \<and>
        (\<not> has_change (hunk_changes st) \<longrightarrow> hunks st' = hunks st) \<and>
        (has_change (hunk_changes st) \<longrightarrow>
           (\<exists>h. hunks st' = hunks st @ [h] \<and>
                take (length (hunk_changes st)) (changes h) = hunk_changes st \<and>
                length (changes h) = length (hunk_changes st) + 3 \<and>
                list_all is_context (drop (length (hunk_changes st)) (changes h)) \<and>
                map Some (drop (length (hunk_changes st)) (changes h))
                  = map (\<lambda>i. map_option
                                (\<lambda>l. \<lparr> c_type = ''context'', c_content = l,
                                        oldLine = Some (old_start st + i - i1),
                                        newLine = Some (new_start st + i - i1) \<rparr>)
                                (py_index ol i))
                      [i1, i1 + 1, i1 + 2] \<and>
                oldStart h = old_start st \<and> oldLines h = i1 + 3 - old_start st \<and>
                newStart h = new_start st \<and> newLines h = j1 + 3 - new_start st)) \<and>
        map Some (hunk_changes st')
          = map (\<lambda>i. map_option
                        (\<lambda>l. \<lparr> c_type = ''context'', c_content = l,
                                oldLine = Some (max 1 (i2 - 3) + i - (i2 - 3)),
                                newLine = Some (max 1 (j2 - 3) + i - (i2 - 3)) \<rparr>)
                        (py_index ol i))
              [i2 - 3, i2 - 2, i2 - 1] \<and>
        old_start st' = max 1 (i2 - 3) \<and> new_start st' = max 1 (j2 - 3))) \<and>
   (diff_step ol nl st (''equal'', i1, i2, j1, j2) = Some st' \<and> 0 \<le> i1 \<and> i2 \<le> int (length ol) \<longrightarrow>
     (i2 - i1 \<le> 10 \<longrightarrow>
        hunk_changes st'
          = hunk_changes st @
            map (\<lambda>i. \<lparr> c_type = ''context'', c_content = '' '' @ ol ! nat i,
                        oldLine = Some (old_start st + i - i1),
                        newLine = Some (new_start st + j1 + i - i1) \<rparr>)
              (py_range i1 i2)) \<and>
     (11 \<le> i2 - i1 \<longrightarrow>
        hunk_changes st'
          = map (\<lambda>i. \<lparr> c_type = ''context'', c_content = ol ! nat i,
                        oldLine = Some (max 1 (i2 - 3) + i - (i2 - 3)),
                        newLine = Some (max 1 (j2 - 3) + i - (i2 - 3)) \<rparr>)
              [i2 - 3, i2 - 2, i2 - 1] \<and>
        (has_change (hunk_changes st) \<longrightarrow>
           changes (last (hunks st'))
             = hunk_changes st @
               map (\<lambda>i. \<lparr> c_type = ''context'', c_content = ol ! nat i,
                           oldLine = Some (old_start st + i - i1),
                           newLine = Some (new_start st + i - i1) \<rparr>)
                 [i1, i1 + 1, i1 + 2])))"
  (is "?general \<and> ?in_range")
proof
  show general: ?general
  proof (intro impI conjI)
  assume s: "diff_step ol nl st (''equal'', i1, i2, j1, j2) = Some st'" and small: "i2 - i1 \<le> 10"
  then obtain ctx where
    c: "collect (\<lambda>i. map_option
                         (\<lambda>l. context_entry ('' '' @ l) (old_start st + i - i1)
                                               (new_start st + j1 + i - i1))
                         (py_index ol i)) (py_range i1 i2) = Some ctx"
    and st': "st' = st\<lparr> hunk_changes := hunk_changes st @ ctx, last_i2 := i2, last_j2 := j2 \<rparr>"
    by (auto simp add: diff_step_def Let_def split: option.splits)
  have len: "length ctx = nat (i2 - i1)"
    using collect_length [OF c] by (simp add: length_py_range)
  have ctx: "list_all is_context ctx"
    using c by (rule collect_all) (auto simp add: is_context_def)
  show "hunks st' = hunks st" "old_start st' = old_start st" "new_start st' = new_start st"
    "take (length (hunk_changes st)) (hunk_changes st') = hunk_changes st"
    "list_all is_context (drop (length (hunk_changes st)) (hunk_changes st'))"
    using ctx by (simp_all add: st')
  show "int (length (hunk_changes st')) = int (length (hunk_changes st)) + max 0 (i2 - i1)"
    using len by (simp add: st')
  show "map Some (drop (length (hunk_changes st)) (hunk_changes st'))
          = map (\<lambda>i. map_option
                        (\<lambda>l. \<lparr> c_type = ''context'', c_content = '' '' @ l,
                                oldLine = Some (old_start st + i - i1),
                                newLine = Some (new_start st + j1 + i - i1) \<rparr>)
                        (py_index ol i))
              (py_range i1 i2)"
    using collect_map [OF c] by (simp add: st' context_entry_def)
next
  assume s: "diff_step ol nl st (''equal'', i1, i2, j1, j2) = Some st'" and big: "11 \<le> i2 - i1"
  then obtain first second where
    f: "collect (\<lambda>i. map_option
                        (\<lambda>l. context_entry l (old_start st + i - i1) (new_start st + i - i1))
                        (py_index ol i))
          (py_range i1 (min (i1 + 3) i2)) = Some first"
    and sc: "collect (\<lambda>i. map_option
                         (\<lambda>l. context_entry l (max 1 (i2 - 3) + i - max i1 (i2 - 3))
                                               (max 1 (j2 - 3) + i - max i1 (i2 - 3)))
                         (py_index ol i))
          (py_range (max i1 (i2 - 3)) i2) = Some second"
    and st': "st' = \<lparr> hunks = (if has_change (hunk_changes st @ first)
                        then hunks st @ [make_hunk (old_start st) (i1 + 3 - old_start st)
                                           (new_start st) (j1 + 3 - new_start st)
                                           (hunk_changes st @ first)]
                        else hunks st),
                       hunk_changes = second, old_start = max 1 (i2 - 3),
                       new_start = max 1 (j2 - 3), last_i2 = i2, last_j2 = j2 \<rparr>"
    by (auto simp add: diff_step_def Let_def split: option.splits)
  from big have m: "min (i1 + 3) i2 = i1 + 3" and mx: "max i1 (i2 - 3) = i2 - 3"
    by simp_all
  have lf: "length first = 3"
    using collect_length [OF f] big by (simp add: length_py_range min_def)
  have ls: "length second = 3"
    using collect_length [OF sc] big by (simp add: length_py_range max_def)
  have cf: "list_all is_context first"
    using f by (rule collect_all) (auto simp add: is_context_def)
  have cs: "list_all is_context second"
    using sc by (rule collect_all) (auto simp add: is_context_def)
  have hc: "has_change (hunk_changes st @ first) = has_change (hunk_changes st)"
    using cf by (rule has_change_append_context)
  have first: "map Some first
                 = map (\<lambda>i. map_option
                                (\<lambda>l. \<lparr> c_type = ''context'', c_content = l,
                                        oldLine = Some (old_start st + i - i1),
                                        newLine = Some (new_start st + i - i1) \<rparr>)
                                (py_index ol i))
                      [i1, i1 + 1, i1 + 2]"
    using collect_map [OF f] by (simp add: m py_range_three context_entry_def)
  have second: "map Some second
                 = map (\<lambda>i. map_option
                        (\<lambda>l. \<lparr> c_type = ''context'', c_content = l,
                                oldLine = Some (max 1 (i2 - 3) + i - (i2 - 3)),
                                newLine = Some (max 1 (j2 - 3) + i - (i2 - 3)) \<rparr>)
                        (py_index ol i))
              [i2 - 3, i2 - 2, i2 - 1]"
    using collect_map [OF sc] by (simp add: mx py_range_last_three context_entry_def)
  show "length (hunk_changes st') = 3" "list_all is_context (hunk_changes st')"
    using ls cs by (simp_all add: st')
  show "hunks st' = hunks st" if "\<not> has_change (hunk_changes st)"
    using that hc by (simp add: st')
  show "\<exists>h. hunks st' = hunks st @ [h] \<and>
            take (length (hunk_changes st)) (changes h) = hunk_changes st \<and>
            length (changes h) = length (hunk_changes st) + 3 \<and>
            list_all is_context (drop (length (hunk_changes st)) (changes h)) \<and>
            map Some (drop (length (hunk_changes st)) (changes h))
              = map (\<lambda>i. map_option
                            (\<lambda>l. \<lparr> c_type = ''context'', c_content = l,
                                    oldLine = Some (old_start st + i - i1),
                                    newLine = Some (new_start st + i - i1) \<rparr>)
                            (py_index ol i))
                  [i1, i1 + 1, i1 + 2] \<and>
            oldStart h = old_start st \<and> oldLines h = i1 + 3 - old_start st \<and>
            newStart h = new_start st \<and> newLines h = j1 + 3 - new_start st"
    if "has_change (hunk_changes st)"
    using that hc lf cf first by (simp add: st' make_hunk_def)
  show "map Some (hunk_changes st')
          = map (\<lambda>i. map_option
                        (\<lambda>l. \<lparr> c_type = ''context'', c_content = l,
                                oldLine = Some (max 1 (i2 - 3) + i - (i2 - 3)),
                                newLine = Some (max 1 (j2 - 3) + i - (i2 - 3)) \<rparr>)
                        (py_index ol i))
              [i2 - 3, i2 - 2, i2 - 1]"
    using second by (simp add: st')
  show "old_start st' = max 1 (i2 - 3)" "new_start st' = max 1 (j2 - 3)"
    by (simp_all add: st')
  qed
  show ?in_range
  proof (intro impI conjI)
    assume a: "diff_step ol nl st (''equal'', i1, i2, j1, j2) = Some st' \<and> 0 \<le> i1 \<and>
               i2 \<le> int (length ol)"
      and small: "i2 - i1 \<le> 10"
    from general a small have
      t: "take (length (hunk_changes st)) (hunk_changes st') = hunk_changes st"
      and m: "map Some (drop (length (hunk_changes st)) (hunk_changes st'))
          = map (\<lambda>i. map_option
                        (\<lambda>l. \<lparr> c_type = ''context'', c_content = '' '' @ l,
                                oldLine = Some (old_start st + i - i1),
                                newLine = Some (new_start st + j1 + i - i1) \<rparr>)
                        (py_index ol i))
              (py_range i1 i2)"
      by blast+
    have "drop (length (hunk_changes st)) (hunk_changes st')
            = map (\<lambda>i. \<lparr> c_type = ''context'', c_content = '' '' @ ol ! nat i,
                        oldLine = Some (old_start st + i - i1),
                        newLine = Some (new_start st + j1 + i - i1) \<rparr>)
              (py_range i1 i2)"
      using m by (rule lines_of_range) (use a in \<open>auto simp add: py_range_def\<close>)
    with t show "hunk_changes st'
          = hunk_changes st @
            map (\<lambda>i. \<lparr> c_type = ''context'', c_content = '' '' @ ol ! nat i,
                        oldLine = Some (old_start st + i - i1),
                        newLine = Some (new_start st + j1 + i - i1) \<rparr>)
              (py_range i1 i2)"
      by (metis append_take_drop_id)
  next
    assume a: "diff_step ol nl st (''equal'', i1, i2, j1, j2) = Some st' \<and> 0 \<le> i1 \<and>
               i2 \<le> int (length ol)"
      and big: "11 \<le> i2 - i1"
    from general a big have
      m: "map Some (hunk_changes st')
          = map (\<lambda>i. map_option
                        (\<lambda>l. \<lparr> c_type = ''context'', c_content = l,
                                oldLine = Some (max 1 (i2 - 3) + i - (i2 - 3)),
                                newLine = Some (max 1 (j2 - 3) + i - (i2 - 3)) \<rparr>)
                        (py_index ol i))
              [i2 - 3, i2 - 2, i2 - 1]"
      by blast
    show "hunk_changes st'
          = map (\<lambda>i. \<lparr> c_type = ''context'', c_content = ol ! nat i,
                        oldLine = Some (max 1 (i2 - 3) + i - (i2 - 3)),
                        newLine = Some (max 1 (j2 - 3) + i - (i2 - 3)) \<rparr>)
              [i2 - 3, i2 - 2, i2 - 1]"
      using m by (rule lines_of_range) (use a big in auto)
  next
    assume a: "diff_step ol nl st (''equal'', i1, i2, j1, j2) = Some st' \<and> 0 \<le> i1 \<and>
               i2 \<le> int (length ol)"
      and big: "11 \<le> i2 - i1" and hc: "has_change (hunk_changes st)"
    from general a big hc obtain h where
      h: "hunks st' = hunks st @ [h]"
      and t: "take (length (hunk_changes st)) (changes h) = hunk_changes st"
      and m: "map Some (drop (length (hunk_changes st)) (changes h))
                  = map (\<lambda>i. map_option
                                (\<lambda>l. \<lparr> c_type = ''context'', c_content = l,
                                        oldLine = Some (old_start st + i - i1),
                                        newLine = Some (new_start st + i - i1) \<rparr>)
                                (py_index ol i))
                      [i1, i1 + 1, i1 + 2]"
      by blast
    have "drop (length (hunk_changes st)) (changes h)
            = map (\<lambda>i. \<lparr> c_type = ''context'', c_content = ol ! nat i,
                           oldLine = Some (old_start st + i - i1),
                           newLine = Some (new_start st + i - i1) \<rparr>)
                 [i1, i1 + 1, i1 + 2]"
      using m by (rule lines_of_range) (use a big in auto)
    with t have "changes h
             = hunk_changes st @
               map (\<lambda>i. \<lparr> c_type = ''context'', c_content = ol ! nat i,
                           oldLine = Some (old_start st + i - i1),
                           newLine = Some (new_start st + i - i1) \<rparr>)
                 [i1, i1 + 1, i1 + 2]"
      by (metis append_take_drop_id)
    with h show "changes (last (hunks st'))
             = hunk_changes st @
               map (\<lambda>i. \<lparr> c_type = ''context'', c_content = ol ! nat i,
                           oldLine = Some (old_start st + i - i1),
                           newLine = Some (new_start st + i - i1) \<rparr>)
                 [i1, i1 + 1, i1 + 2]"
      by simp
  qed
qed

theorem equal_region_split_boundary_witness:
  "diff_step demo_lines demo_lines demo_diff_state (''equal'', 0, 10, 1, 11) = Some demo_state_10 \<and>
   hunks demo_state_10 = hunks demo_diff_state \<and>
   length (hunk_changes demo_state_10) = length (hunk_changes demo_diff_state) + 10 \<and>
   map c_content (drop 1 (hunk_changes demo_state_10))
     = ['' l0'', '' l1'', '' l2'', '' l3'', '' l4'', '' l5'', '' l6'', '' l7'', '' l8'', '' l9''] \<and>
   diff_step demo_lines demo_lines demo_diff_state (''equal'', 0, 11, 1, 12) = Some demo_state_11 \<and>
   length (hunk_changes demo_state_11) = 3 \<and>
   map c_content (hunk_changes demo_state_11) = [''l8'', ''l9'', ''l10''] \<and>
   map (\<lambda>h. length (changes h)) (hunks demo_state_11) = [4] \<and>
   map (\<lambda>h. map c_content (changes h)) (hunks demo_state_11) = [[''+new'', ''l0'', ''l1'', ''l2'']]"
  using equal_region_split_boundary [of demo_lines demo_lines demo_diff_state 0 10 1 11 demo_state_10]
        equal_region_split_boundary [of demo_lines demo_lines demo_diff_state 0 11 1 12 demo_state_11]
        step10 step11
  by (simp add: demo_state_10_def demo_state_11_def demo_diff_state_def initial_diff_state_def
        make_hunk_def context_entry_def insert_entry_def)

subsection \<open>The diff loop on opcodes in range\<close>

text \<open>
  On opcodes whose ranges lie inside the line lists no index raises, so the loop and
  \<^verbatim>\<open>_generate_text_diff\<close> return a document.
\<close>

lemma collect_defined:
  "(\<And>i. i \<in> set xs \<Longrightarrow> f i \<noteq> None) \<Longrightarrow> collect f xs \<noteq> None"
  by (induction xs) (auto split: option.splits)

lemma py_index_defined: "0 \<le> i \<Longrightarrow> i < int (length xs) \<Longrightarrow> py_index xs i \<noteq> None"
  by (simp add: py_index_def Let_def)

lemma collect_lines_defined:
  "0 \<le> a \<Longrightarrow> b \<le> int (length xs) \<Longrightarrow>
   collect (\<lambda>i. map_option (g i) (py_index xs i)) (py_range a b) \<noteq> None"
  by (rule collect_defined) (auto simp add: py_range_def py_index_def Let_def)

lemma diff_step_defined:
  assumes "0 \<le> i1" "i1 \<le> i2" "i2 \<le> int (length ol)" "0 \<le> j1" "j1 \<le> j2" "j2 \<le> int (length nl)"
  shows "diff_step ol nl st (tag, i1, i2, j1, j2) \<noteq> None"
proof -
  have a: "collect (\<lambda>i. map_option (g i) (py_index ol i)) (py_range i1 (min (i1 + 3) i2)) \<noteq> None"
    for g :: "int \<Rightarrow> string \<Rightarrow> change"
    using assms by (intro collect_lines_defined) auto
  have b: "collect (\<lambda>i. map_option (g i) (py_index ol i)) (py_range (max i1 (i2 - 3)) i2) \<noteq> None"
    for g :: "int \<Rightarrow> string \<Rightarrow> change"
    using assms by (intro collect_lines_defined) auto
  have c: "collect (\<lambda>i. map_option (g i) (py_index ol i)) (py_range i1 i2) \<noteq> None"
    for g :: "int \<Rightarrow> string \<Rightarrow> change"
    using assms by (intro collect_lines_defined) auto
  have d: "collect (\<lambda>i. map_option (g i) (py_index nl i)) (py_range j1 j2) \<noteq> None"
    for g :: "int \<Rightarrow> string \<Rightarrow> change"
    using assms by (intro collect_lines_defined) auto
  show ?thesis
  proof (cases "tag = ''equal'' \<and> i2 - i1 > 10")
    case True
    obtain first where f: "collect (\<lambda>i. map_option
        (\<lambda>l. context_entry l (old_start st + i - i1) (new_start st + i - i1)) (py_index ol i))
        (py_range i1 (min (i1 + 3) i2)) = Some first"
      using a [of "\<lambda>i l. context_entry l (old_start st + i - i1) (new_start st + i - i1)"]
      by blast
    obtain second where s: "collect (\<lambda>i. map_option
        (\<lambda>l. context_entry l (max 1 (i2 - 3) + i - max i1 (i2 - 3))
                               (max 1 (j2 - 3) + i - max i1 (i2 - 3))) (py_index ol i))
        (py_range (max i1 (i2 - 3)) i2) = Some second"
      using b [of "\<lambda>i l. context_entry l (max 1 (i2 - 3) + i - max i1 (i2 - 3))
                                      (max 1 (j2 - 3) + i - max i1 (i2 - 3))"]
      by blast
    from True have m: "min (i1 + 3) i2 = i1 + 3" and mx: "max i1 (i2 - 3) = i2 - 3"
      by simp_all
    from True show ?thesis
      by (simp add: diff_step_def Let_def f [unfolded m] s [unfolded mx])
  next
    case False
    obtain ds where ds: "collect (\<lambda>i. map_option (\<lambda>l. delete_entry l (old_start st + i - i1))
        (py_index ol i)) (py_range i1 i2) = Some ds"
      using c [of "\<lambda>i l. delete_entry l (old_start st + i - i1)"] by blast
    obtain es where es: "collect (\<lambda>i. map_option
        (\<lambda>l. context_entry (CHR '' '' # l) (old_start st + i - i1) (new_start st + j1 + i - i1))
        (py_index ol i)) (py_range i1 i2) = Some es"
      using c [of "\<lambda>i l. context_entry (CHR '' '' # l) (old_start st + i - i1)
                                      (new_start st + j1 + i - i1)"] by blast
    obtain ns where ns: "collect (\<lambda>j. map_option (\<lambda>l. insert_entry l (new_start st + j - j1))
        (py_index nl j)) (py_range j1 j2) = Some ns"
      using d [of "\<lambda>j l. insert_entry l (new_start st + j - j1)"] by blast
    from False show ?thesis
      by (simp add: diff_step_def Let_def ds es ns)
  qed
qed

lemma run_opcodes_defined:
  "list_all (opcode_in_range ol nl) ops \<Longrightarrow> run_opcodes ol nl st ops \<noteq> None"
proof (induction ops arbitrary: st)
  case Nil
  show ?case by simp
next
  case (Cons opc rest)
  obtain tag i1 i2 j1 j2 where opc: "opc = (tag, i1, i2, j1, j2)"
    by (cases opc) auto
  with Cons.prems have "diff_step ol nl st opc \<noteq> None"
    by (simp add: opcode_in_range_def diff_step_defined)
  with Cons show ?case
    by (auto split: option.splits)
qed

lemma generate_text_diff_defined:
  "list_all (opcode_in_range (splitlines env old_content) (splitlines env new_content))
     (get_opcodes env (splitlines env old_content) (splitlines env new_content)) \<Longrightarrow>
   generate_text_diff env old_content new_content \<noteq> None"
  by (simp add: generate_text_diff_def Let_def run_opcodes_defined)

subsection \<open>Idempotence of \<^verbatim>\<open>generate_diff\<close>\<close>





lemma find_map_visual:
  "find (\<lambda>row. d_old_snapshot_id row = a \<and> d_new_snapshot_id row = b)
     (map (\<lambda>row. if d_id row = i then row\<lparr>d_visual_diff_path := v\<rparr> else row) rows)
   = map_option (\<lambda>row. if d_id row = i then row\<lparr>d_visual_diff_path := v\<rparr> else row)
       (find (\<lambda>row. d_old_snapshot_id row = a \<and> d_new_snapshot_id row = b) rows)"
  by (induction rows) auto


lemma get_by_id_snapshots:
  "snapshots d' = snapshots d \<Longrightarrow> get_by_id d' i = get_by_id d i"
  by (simp add: get_by_id_def)

lemma pair_of_visual [simp]: "pair_of (row\<lparr>d_visual_diff_path := v\<rparr>) = pair_of row"
  by (simp add: pair_of_def)

lemma map_pair_of_update:
  "map pair_of (map (\<lambda>row. if d_id row = i then row\<lparr>d_visual_diff_path := v\<rparr> else row) rows)
     = map pair_of rows"
  by (induction rows) auto

lemma fst_insert_diff [simp]: "fst (insert_diff d row) = diffs_seq d"
  by (simp add: insert_diff_def Let_def)

lemma snapshots_insert_diff [simp]: "snapshots (snd (insert_diff d row)) = snapshots d"
  by (simp add: insert_diff_def Let_def)

lemma snapshots_update_diffs [simp]: "snapshots (update_diffs d i upd) = snapshots d"
  by (simp add: update_diffs_def)

lemma check_update_diffs [simp]:
  "check_diff_exists (update_diffs d i (\<lambda>row. row\<lparr>d_visual_diff_path := v\<rparr>)) a b
     = check_diff_exists d a b"
  by (cases "find (\<lambda>row. d_old_snapshot_id row = a \<and> d_new_snapshot_id row = b) (diffs d)")
     (simp_all add: check_diff_exists_def update_diffs_def find_map_visual)


lemma pairs_update_diffs [simp]:
  "map pair_of (diffs (update_diffs d i (\<lambda>row. row\<lparr>d_visual_diff_path := v\<rparr>)))
     = map pair_of (diffs d)"
  by (simp add: update_diffs_def map_pair_of_update)

lemma pairs_insert_diff [simp]:
  "map pair_of (diffs (snd (insert_diff d row)))
     = map pair_of (diffs d) @ [(d_old_snapshot_id row, d_new_snapshot_id row)]"
  by (simp add: insert_diff_def Let_def pair_of_def)







end
